theory Spec2Isabelle
  imports Complex_Main
begin

section \<open>Numbers\<close>

text \<open>
  The TypeScript sources compute with \<^verbatim>\<open>number\<close>. A value is \<open>NaN\<close>, one of the
  two infinities, or finite. Every comparison with \<open>NaN\<close> is false, as in the language.
  Finite values are reals: the store and the cue lookup only compare times. Where
  a function computes with them and rounding decides its result, the rounding is
  written out (binary64 arithmetic, below).
\<close>

datatype jsnum = NaN | NegInf | Fin real | PosInf

fun num_lt :: "jsnum \<Rightarrow> jsnum \<Rightarrow> bool" where
  "num_lt NaN _ = False"
| "num_lt _ NaN = False"
| "num_lt PosInf _ = False"
| "num_lt _ NegInf = False"
| "num_lt NegInf _ = True"
| "num_lt (Fin a) (Fin b) = (a < b)"
| "num_lt (Fin a) PosInf = True"

definition num_gt :: "jsnum \<Rightarrow> jsnum \<Rightarrow> bool" where
  "num_gt a b = num_lt b a"

definition num_le :: "jsnum \<Rightarrow> jsnum \<Rightarrow> bool" where
  "num_le a b = (a \<noteq> NaN \<and> b \<noteq> NaN \<and> \<not> num_lt b a)"

definition num_ge :: "jsnum \<Rightarrow> jsnum \<Rightarrow> bool" where
  "num_ge a b = num_le b a"

definition isNaN :: "jsnum \<Rightarrow> bool" where
  "isNaN a = (a = NaN)"

section \<open>Binary64 arithmetic\<close>

text \<open>
  An arithmetic operation of the language returns the exact result rounded to the
  nearest binary64 value, ties to the even significand: \<open>rnd53\<close>, for results whose
  magnitude is zero or in the normal range (the values computed below are times in
  seconds and milliseconds, zero or between \<open>1/1000\<close> and \<open>10\<^sup>7\<close> in magnitude).
  \<open>binade x\<close> is the exponent of the power of two at or below \<open>\<bar>x\<bar>\<close>, \<open>ulp x\<close> the spacing
  of the binary64 values there. A decimal literal of the source is the binary64 value
  nearest to it, so \<^verbatim>\<open>1.1\<close> is \<open>rnd53 (11 / 10)\<close>. The remainder operator \<^verbatim>\<open>%\<close> is exact
  and takes the sign of the dividend: \<open>fmod\<close>.
\<close>

definition rne :: "real \<Rightarrow> int" where
  "rne x =
     (let f = \<lfloor>x\<rfloor>; d = x - of_int f
      in if d < 1 / 2 then f else if 1 / 2 < d then f + 1 else if even f then f else f + 1)"

definition binade :: "real \<Rightarrow> int" where
  "binade x = \<lfloor>log 2 \<bar>x\<bar>\<rfloor>"

definition ulp :: "real \<Rightarrow> real" where
  "ulp x = 2 powi (binade x - 52)"

definition rnd53 :: "real \<Rightarrow> real" where
  "rnd53 x = (if x = 0 then 0 else sgn x * (of_int (rne (\<bar>x\<bar> / ulp x)) * ulp x))"

definition fadd :: "real \<Rightarrow> real \<Rightarrow> real" where
  "fadd x y = rnd53 (x + y)"

definition fsub :: "real \<Rightarrow> real \<Rightarrow> real" where
  "fsub x y = rnd53 (x - y)"

definition fmul :: "real \<Rightarrow> real \<Rightarrow> real" where
  "fmul x y = rnd53 (x * y)"

definition fdiv :: "real \<Rightarrow> real \<Rightarrow> real" where
  "fdiv x y = rnd53 (x / y)"

definition trunc :: "real \<Rightarrow> int" where
  "trunc q = (if 0 \<le> q then \<lfloor>q\<rfloor> else \<lceil>q\<rceil>)"

definition fmod :: "real \<Rightarrow> real \<Rightarrow> real" where
  "fmod x y = x - y * of_int (trunc (x / y))"

section \<open>Data model (types.ts, mediaStore.ts)\<close>

text \<open>
  A subtitle cue. The language fields of \<^verbatim>\<open>SubtitleCue\<close> (textEn, textZh, languages,
  detectedLanguages, primaryLanguage) are derived from \<open>cue_text\<close> and are read by no
  operation below; they are left out.

  The identifier of a cue is a string. The numbered format builds it as
  \<^verbatim>\<open>`srt-${index}`\<close> from the number that \<^verbatim>\<open>parseInt\<close> returned: \<open>SrtId index\<close> is that
  string, kept as the number it prints, so that what the number is decides the
  identifier; it is never the empty string. \<open>Label s\<close> is the identifier \<open>s\<close> itself.
\<close>

datatype cue_ident = SrtId jsnum | Label string

fun ident_empty :: "cue_ident \<Rightarrow> bool" where
  "ident_empty (SrtId n) = False"
| "ident_empty (Label s) = (s = [])"

record SubtitleCue =
  cue_id :: cue_ident
  cue_index :: int
  cue_start :: jsnum
  cue_end :: jsnum
  cue_text :: string

datatype video_fit = Contain | Cover | Fill

datatype position = Top | Center | Bottom

record SubtitleConfig =
  fontSize :: jsnum
  fontColor :: string
  translationColor :: string
  highlightColor :: string
  backgroundColor :: string
  position :: position
  showEnglish :: bool
  showChinese :: bool
  visibleLanguages :: "string list"
  primaryLanguage :: string
  showIndexAndTime :: bool
  wordByWordHighlight :: bool

text \<open>
  The calls the store and the driver make on the external player. \<open>playerRef\<close> is
  \<open>None\<close> for a null reference and otherwise holds the calls the player has received
  through the store, oldest first.
\<close>

datatype player_cmd = SeekTo jsnum | PlayVideo | PauseVideo

record MediaState =
  currentTime :: jsnum
  duration :: jsnum
  playing :: bool
  volume :: jsnum
  playbackRate :: jsnum
  videoFit :: video_fit
  showInlineSubtitles :: bool
  playerRef :: "player_cmd list option"
  subtitles :: "SubtitleCue list"
  activeIndex :: int
  activeWordIndex :: int
  subtitleConfig :: SubtitleConfig
  loopEnabled :: bool
  loopStart :: jsnum
  loopEnd :: jsnum
  segmentPlayEnabled :: bool
  segmentPlayEnd :: jsnum
  segmentLoopEnabled :: bool
  segmentLoopTotal :: int
  segmentLoopCurrent :: int
  segmentLoopIndex :: int
  abRepeatEnabled :: bool
  pointA :: "jsnum option"
  pointB :: "jsnum option"
  shadowingEnabled :: bool
  shadowingPauseFactor :: real

definition initialState :: MediaState where
  "initialState =
     \<lparr> currentTime = Fin 0, duration = Fin 0, playing = False, volume = Fin (8 / 10),
       playbackRate = Fin 1, videoFit = Contain, showInlineSubtitles = False,
       playerRef = None, subtitles = [], activeIndex = - 1, activeWordIndex = - 1,
       subtitleConfig =
         \<lparr> fontSize = Fin 16, fontColor = ''#FFFFFF'', translationColor = '''',
           highlightColor = '''', backgroundColor = ''rgba(0, 0, 0, 0.7)'',
           position = Bottom, showEnglish = True, showChinese = True,
           visibleLanguages = [''en'', ''zh''], primaryLanguage = ''en'',
           showIndexAndTime = False, wordByWordHighlight = False \<rparr>,
       loopEnabled = False, loopStart = Fin 0, loopEnd = Fin 0,
       segmentPlayEnabled = False, segmentPlayEnd = Fin 0,
       segmentLoopEnabled = False, segmentLoopTotal = 3, segmentLoopCurrent = 0,
       segmentLoopIndex = - 1,
       abRepeatEnabled = False, pointA = None, pointB = None,
       shadowingEnabled = False, shadowingPauseFactor = 1 \<rparr>"

section \<open>Playback mode store (mediaStore.ts)\<close>

text \<open>
  Each action of the store is a function from the state before to the state after.
  An action that calls \<^verbatim>\<open>get()\<close> between its steps reads the state its earlier steps
  have written, so the steps are composed in the order of the source.
\<close>

definition player_send :: "player_cmd \<Rightarrow> MediaState \<Rightarrow> MediaState" where
  "player_send c s =
     (case playerRef s of None \<Rightarrow> s | Some cmds \<Rightarrow> s\<lparr>playerRef := Some (cmds @ [c])\<rparr>)"

definition setPlaying :: "bool \<Rightarrow> MediaState \<Rightarrow> MediaState" where
  "setPlaying p s = s\<lparr>playing := p\<rparr>"

definition disableLoop :: "MediaState \<Rightarrow> MediaState" where
  "disableLoop s = s\<lparr>loopEnabled := False, loopStart := Fin 0, loopEnd := Fin 0\<rparr>"

definition stopSegmentLoop :: "MediaState \<Rightarrow> MediaState" where
  "stopSegmentLoop s =
     s\<lparr>segmentLoopEnabled := False, segmentLoopTotal := 3, segmentLoopCurrent := 0,
       segmentLoopIndex := - 1, loopStart := Fin 0, loopEnd := Fin 0\<rparr>"

definition disableABRepeat :: "MediaState \<Rightarrow> MediaState" where
  "disableABRepeat s = s\<lparr>abRepeatEnabled := False\<rparr>"

definition disableShadowing :: "MediaState \<Rightarrow> MediaState" where
  "disableShadowing s = s\<lparr>shadowingEnabled := False\<rparr>"

definition enableLoop :: "jsnum \<Rightarrow> jsnum \<Rightarrow> MediaState \<Rightarrow> MediaState" where
  "enableLoop start end s =
     (let s1 = (if segmentLoopEnabled s then stopSegmentLoop s else s);
          s2 = (if abRepeatEnabled s1 then disableABRepeat s1 else s1);
          s3 = (if shadowingEnabled s2 then disableShadowing s2 else s2)
      in s3\<lparr>loopEnabled := True, loopStart := start, loopEnd := end\<rparr>)"

definition startSegmentLoop :: "jsnum \<Rightarrow> jsnum \<Rightarrow> int \<Rightarrow> int \<Rightarrow> MediaState \<Rightarrow> MediaState" where
  "startSegmentLoop start end count index s =
     (let s0 = player_send (SeekTo start) s;
          s1 = (if loopEnabled s0 then disableLoop s0 else s0);
          s2 = (if segmentPlayEnabled s1 then s1\<lparr>segmentPlayEnabled := False\<rparr> else s1);
          s3 = (if abRepeatEnabled s2 then disableABRepeat s2 else s2);
          s4 = (if shadowingEnabled s3 then disableShadowing s3 else s3);
          p = playing s4
      in s4\<lparr>segmentLoopEnabled := True, segmentLoopTotal := count,
            segmentLoopCurrent := 0, segmentLoopIndex := index,
            loopStart := start, loopEnd := end, currentTime := start, playing := p\<rparr>)"

definition incrementLoopCount :: "MediaState \<Rightarrow> MediaState" where
  "incrementLoopCount s = s\<lparr>segmentLoopCurrent := segmentLoopCurrent s + 1\<rparr>"

definition setPointA :: "jsnum \<Rightarrow> MediaState \<Rightarrow> MediaState" where
  "setPointA time s =
     (if isNaN time \<or> num_lt time (Fin 0) then s else s\<lparr>pointA := Some time\<rparr>)"

definition setPointB :: "jsnum \<Rightarrow> MediaState \<Rightarrow> MediaState" where
  "setPointB time s =
     (if isNaN time \<or> num_lt time (Fin 0) then s
      else (case pointA s of
              None \<Rightarrow> s
            | Some a \<Rightarrow> if num_gt time a then s\<lparr>pointB := Some time\<rparr> else s))"

definition enableABRepeat :: "MediaState \<Rightarrow> MediaState" where
  "enableABRepeat s =
     (case (pointA s, pointB s) of
        (Some a, Some b) \<Rightarrow>
          if num_gt b a then
            (let s1 = (if segmentLoopEnabled s then stopSegmentLoop s else s);
                 s2 = (if loopEnabled s1 then disableLoop s1 else s1);
                 s3 = (if shadowingEnabled s2 then disableShadowing s2 else s2)
             in s3\<lparr>abRepeatEnabled := True\<rparr>)
          else s
      | _ \<Rightarrow> s)"

definition enableShadowing :: "MediaState \<Rightarrow> MediaState" where
  "enableShadowing s =
     (let s1 = (if segmentLoopEnabled s then stopSegmentLoop s else s);
          s2 = (if loopEnabled s1 then disableLoop s1 else s1);
          s3 = (if abRepeatEnabled s2 then disableABRepeat s2 else s2)
      in s3\<lparr>shadowingEnabled := True\<rparr>)"

definition playNextSegment :: "MediaState \<Rightarrow> MediaState" where
  "playNextSegment s =
     (if subtitles s = [] then s
      else
        (let currentIndex =
               (if segmentLoopIndex s \<noteq> - 1 then segmentLoopIndex s else activeIndex s);
             nextIndex = currentIndex + 1
         in if nextIndex \<ge> int (length (subtitles s)) then s
            else if nextIndex < 0 then s
            else
              (let nextCue = subtitles s ! nat nextIndex
               in if segmentLoopIndex s \<noteq> - 1 then
                    (let s1 = s\<lparr>playing := True\<rparr>;
                         s2 = player_send PlayVideo (player_send (SeekTo (cue_start nextCue)) s1);
                         s3 = s2\<lparr>segmentLoopEnabled := False, segmentLoopCurrent := 0\<rparr>
                     in startSegmentLoop (cue_start nextCue) (cue_end nextCue)
                          (segmentLoopTotal s) nextIndex s3)
                  else
                    player_send (SeekTo (cue_start nextCue)) (s\<lparr>activeIndex := nextIndex\<rparr>))))"

text \<open>
  The four playback modes of the store and the flag that holds each.
\<close>

datatype mode = SimpleLoop | SegmentLoop | ABRepeat | Shadowing

fun modeActive :: "MediaState \<Rightarrow> mode \<Rightarrow> bool" where
  "modeActive s SimpleLoop = loopEnabled s"
| "modeActive s SegmentLoop = segmentLoopEnabled s"
| "modeActive s ABRepeat = abRepeatEnabled s"
| "modeActive s Shadowing = shadowingEnabled s"

definition activeModes :: "MediaState \<Rightarrow> mode list" where
  "activeModes s = filter (modeActive s) [SimpleLoop, SegmentLoop, ABRepeat, Shadowing]"

section \<open>Synchronization driver (useMediaSync)\<close>

text \<open>
  The loop-control section of one tick of \<^verbatim>\<open>syncLoop\<close>. It runs on the store state
  of the tick; the sections of the tick before it write only \<open>currentTime\<close>,
  \<open>activeIndex\<close>, \<open>activeWordIndex\<close> and \<open>playing\<close>, none of which decides a branch here.
  The result is the list of calls made on the driver's own player reference, and the
  store state after. \<open>hookLoopEnd\<close> is the \<open>loopEnd\<close> the hook subscribed to at its last
  render, which the simple-loop branch compares with; \<open>autoPlayNext\<close> is the plugin
  setting, \<open>False\<close> when there is no plugin.
\<close>

definition loopControl ::
  "jsnum \<Rightarrow> bool \<Rightarrow> jsnum \<Rightarrow> MediaState \<Rightarrow> player_cmd list \<times> MediaState" where
  "loopControl hookLoopEnd autoPlayNext time s =
     (case (abRepeatEnabled s, pointA s, pointB s) of
        (True, Some a, Some b) \<Rightarrow>
          if num_ge time b then ([SeekTo a], s)
          else if num_lt time a then ([SeekTo a], s)
          else ([], s)
      | _ \<Rightarrow>
          if segmentLoopEnabled s \<and> num_ge time (loopEnd s) then
            (if segmentLoopCurrent s < segmentLoopTotal s - 1
             then ([SeekTo (loopStart s)], incrementLoopCount s)
             else if autoPlayNext then ([], playNextSegment s)
             else ([PauseVideo], stopSegmentLoop s))
          else if loopEnabled s \<and> num_ge time hookLoopEnd then ([SeekTo (loopStart s)], s)
          else ([], s))"

text \<open>
  The length in milliseconds of the shadowing pause, the delay of the timer that
  resumes playback, from the duration of the sentence in seconds and the pause factor
  of the store. Both are binary64 values and every operation rounds; \<^verbatim>\<open>1.1\<close> and
  \<^verbatim>\<open>0.01\<close> are the binary64 values nearest to them.
\<close>

definition dynamicPauseDuration :: "real \<Rightarrow> real \<Rightarrow> real" where
  "dynamicPauseDuration sentenceDuration pauseFactor =
     (if \<bar>fsub pauseFactor (rnd53 (11 / 10))\<bar> < rnd53 (1 / 100)
      then fadd (fmul (fmul sentenceDuration 1000) (rnd53 (11 / 10))) 1000
      else if pauseFactor \<le> 1
      then max 1000 (fmul (fmul sentenceDuration 1000) pauseFactor)
      else max 1500 (fmul (fmul sentenceDuration 1000) pauseFactor))"

section \<open>Cue index resolver (SubtitleParser.findIndexAtTime)\<close>

definition cue_contains :: "SubtitleCue \<Rightarrow> jsnum \<Rightarrow> bool" where
  "cue_contains cue time = (num_ge time (cue_start cue) \<and> num_lt time (cue_end cue))"

text \<open>
  The fast path on the hint: \<open>Some r\<close> when it returns \<open>r\<close>, \<open>None\<close> when control falls
  through to the binary search.
\<close>

definition findIndexAtTime_hint :: "SubtitleCue list \<Rightarrow> jsnum \<Rightarrow> int \<Rightarrow> int option" where
  "findIndexAtTime_hint cues time hintIndex =
     (if hintIndex \<ge> 0 \<and> hintIndex < int (length cues) then
        (let current = cues ! nat hintIndex
         in if num_ge time (cue_start current) \<and> num_lt time (cue_end current)
            then Some hintIndex
            else
              (let nextIndex = hintIndex + 1
               in if nextIndex < int (length cues) then
                    (let next = cues ! nat nextIndex
                     in if num_ge time (cue_start next) \<and> num_lt time (cue_end next)
                        then Some nextIndex
                        else if num_ge time (cue_end current) \<and> num_lt time (cue_start next)
                        then Some (- 1)
                        else None)
                  else None))
      else None)"

text \<open>
  The \<^verbatim>\<open>while (left <= right)\<close> loop. A probe outside the list (\<^verbatim>\<open>!cue\<close>) breaks out
  of the loop with the result so far.
\<close>

function findIndexAtTime_loop ::
  "SubtitleCue list \<Rightarrow> jsnum \<Rightarrow> int \<Rightarrow> int \<Rightarrow> int \<Rightarrow> int" where
  "findIndexAtTime_loop cues time left right result =
     (if left \<le> right then
        (let mid = (left + right) div 2
         in if mid < 0 \<or> int (length cues) \<le> mid then result
            else
              (let cue = cues ! nat mid
               in if num_ge time (cue_start cue) \<and> num_lt time (cue_end cue) then mid
                  else if num_lt time (cue_start cue)
                  then findIndexAtTime_loop cues time left (mid - 1) result
                  else findIndexAtTime_loop cues time (mid + 1) right
                         (if num_ge time (cue_start cue) then mid else result)))
      else result)"
  by pat_completeness auto
termination
  by (relation "measure (\<lambda>(cues, time, left, right, result). nat (right - left + 1))") auto

declare findIndexAtTime_loop.simps [simp del]

definition findIndexAtTime :: "SubtitleCue list \<Rightarrow> jsnum \<Rightarrow> int \<Rightarrow> int" where
  "findIndexAtTime cues time hintIndex =
     (if cues = [] then - 1
      else
        (case findIndexAtTime_hint cues time hintIndex of
           Some r \<Rightarrow> r
         | None \<Rightarrow> findIndexAtTime_loop cues time 0 (int (length cues) - 1) (- 1)))"

section \<open>Worker offload manager (SubtitleWorkerManager.ts)\<close>

text \<open>
  A request id \<^verbatim>\<open>request-n\<close> is the number \<open>n\<close>. The promise that \<open>parse\<close> returns for
  request \<open>n\<close> is \<open>promises m n\<close>: pending, resolved with cues, or rejected with a message;
  \<open>settle\<close> is the \<open>resolve\<close> or \<open>reject\<close> of a promise, which does nothing once the
  promise is settled. \<open>worker\<close> is \<open>None\<close> for a null reference and otherwise the requests
  posted to the worker, oldest first. \<open>pendingRequests\<close> is the table of pending requests
  in insertion order, each with the flag that it has a progress callback;
  \<open>progressCalls\<close> records the calls of progress callbacks.
\<close>

datatype promise_state = Pending | Resolved "SubtitleCue list" | Rejected string

datatype SubtitleFormat = Srt | Vtt | Ass | Unknown

record WorkerManager =
  worker :: "(nat \<times> string \<times> SubtitleFormat option) list option"
  pendingRequests :: "(nat \<times> bool) list"
  requestIdCounter :: nat
  isSupported :: bool
  promises :: "nat \<Rightarrow> promise_state option"
  progressCalls :: "(nat \<times> real) list"

datatype response =
    Result nat "SubtitleCue list option"
  | Error nat "string option"
  | Progress nat "real option"

definition settle :: "nat \<Rightarrow> promise_state \<Rightarrow> WorkerManager \<Rightarrow> WorkerManager" where
  "settle n outcome m =
     (if promises m n = Some Pending then m\<lparr>promises := (promises m)(n \<mapsto> outcome)\<rparr> else m)"

definition pending_delete :: "nat \<Rightarrow> WorkerManager \<Rightarrow> WorkerManager" where
  "pending_delete n m = m\<lparr>pendingRequests := filter (\<lambda>(k, _). k \<noteq> n) (pendingRequests m)\<rparr>"

definition response_id :: "response \<Rightarrow> nat" where
  "response_id r = (case r of Result n _ \<Rightarrow> n | Error n _ \<Rightarrow> n | Progress n _ \<Rightarrow> n)"

definition handleMessage :: "response \<Rightarrow> WorkerManager \<Rightarrow> WorkerManager" where
  "handleMessage r m =
     (case map_of (pendingRequests m) (response_id r) of
        None \<Rightarrow> m
      | Some onProgress \<Rightarrow>
          (case r of
             Result n dat \<Rightarrow>
               (case dat of
                  Some cues \<Rightarrow> pending_delete n (settle n (Resolved cues) m)
                | None \<Rightarrow> m)
           | Error n err \<Rightarrow>
               pending_delete n
                 (settle n
                    (Rejected
                      (case err of
                         Some e \<Rightarrow> if e = [] then ''Unknown worker error'' else e
                       | None \<Rightarrow> ''Unknown worker error'')) m)
           | Progress n progress \<Rightarrow>
               (case progress of
                  Some p \<Rightarrow> if onProgress then m\<lparr>progressCalls := progressCalls m @ [(n, p)]\<rparr> else m
                | None \<Rightarrow> m)))"

definition handleError :: "string \<Rightarrow> WorkerManager \<Rightarrow> WorkerManager" where
  "handleError message m =
     (fold (\<lambda>(n, _). settle n (Rejected (''Worker error: '' @ message))) (pendingRequests m) m)
       \<lparr>pendingRequests := []\<rparr>"

text \<open>
  \<open>parse_request\<close> is the \<open>parse\<close> of the manager. On the worker path it returns
  the id of the request it registered. On the
  fallback path (no worker) the promise is resolved at once with the empty list that
  \<open>parseFallback\<close> returns; the result is then \<open>Inl []\<close>.
\<close>

definition parse_request ::
  "string \<Rightarrow> SubtitleFormat option \<Rightarrow> bool \<Rightarrow> WorkerManager \<Rightarrow>
     (SubtitleCue list + nat) \<times> WorkerManager" where
  "parse_request text format onProgress m =
     (case worker m of
        None \<Rightarrow> (Inl [], m)
      | Some posted \<Rightarrow>
          if \<not> isSupported m then (Inl [], m)
          else
            (let n = requestIdCounter m
             in (Inr n,
                 m\<lparr>requestIdCounter := n + 1,
                   promises := (promises m)(n \<mapsto> Pending),
                   pendingRequests :=
                     filter (\<lambda>(k, _). k \<noteq> n) (pendingRequests m) @ [(n, onProgress)],
                   worker := Some (posted @ [(n, text, format)])\<rparr>)))"

text \<open>The callback of the 30 second timer that \<open>parse\<close> starts for request \<open>n\<close>.\<close>

definition parse_timeout :: "nat \<Rightarrow> WorkerManager \<Rightarrow> WorkerManager" where
  "parse_timeout n m =
     (if map_of (pendingRequests m) n \<noteq> None
      then settle n (Rejected ''Worker timeout after 30s'') (pending_delete n m)
      else m)"

definition terminate :: "WorkerManager \<Rightarrow> WorkerManager" where
  "terminate m =
     (let m1 = (case worker m of Some _ \<Rightarrow> m\<lparr>worker := None\<rparr> | None \<Rightarrow> m)
      in m1\<lparr>pendingRequests := []\<rparr>)"

text \<open>A manager after a successful \<open>initWorker\<close>, before any request.\<close>

definition newManager :: WorkerManager where
  "newManager =
     \<lparr> worker = Some [], pendingRequests = [], requestIdCounter = 0, isSupported = True,
       promises = Map.empty, progressCalls = [] \<rparr>"

section \<open>Timestamps (SubtitleParser.parseTimestamp, formatTimestamp)\<close>

text \<open>
  A string is a list of characters, one per code unit; the code units are those below
  256. \<open>parseInt_digits\<close> is \<^verbatim>\<open>parseInt(_, 10)\<close> on a string of decimal digits,
  \<open>int_to_string\<close> is \<^verbatim>\<open>toString()\<close> of an integer, \<open>padStart\<close> is
  \<^verbatim>\<open>padStart\<close> with a one-character filler, \<open>replace_first\<close> is \<^verbatim>\<open>replace\<close> of
  the first occurrence of one character.
\<close>

definition is_digit :: "char \<Rightarrow> bool" where
  "is_digit c = (c \<in> set ''0123456789'')"

definition digit_val :: "char \<Rightarrow> nat" where
  "digit_val c = of_char c - 48"

definition digit_char :: "nat \<Rightarrow> char" where
  "digit_char d = ''0123456789'' ! d"

definition parseInt_digits :: "string \<Rightarrow> nat" where
  "parseInt_digits s = foldl (\<lambda>n c. 10 * n + digit_val c) 0 s"

fun nat_to_string :: "nat \<Rightarrow> string" where
  "nat_to_string n =
     (if n < 10 then [digit_char n] else nat_to_string (n div 10) @ [digit_char (n mod 10)])"

declare nat_to_string.simps [simp del]

definition int_to_string :: "int \<Rightarrow> string" where
  "int_to_string n =
     (if n < 0 then CHR ''-'' # nat_to_string (nat (- n)) else nat_to_string (nat n))"

definition padStart :: "nat \<Rightarrow> char \<Rightarrow> string \<Rightarrow> string" where
  "padStart w c s = replicate (w - length s) c @ s"

fun replace_first :: "char \<Rightarrow> char \<Rightarrow> string \<Rightarrow> string" where
  "replace_first a b [] = []"
| "replace_first a b (c # cs) = (if c = a then b # cs else c # replace_first a b cs)"

text \<open>
  \<open>search m s\<close> is the leftmost match of an unanchored regular expression: \<open>m\<close> matches
  the expression at the head of a string, and the search tries every suffix in turn.
  \<open>match_timestamp sep\<close> matches \<^verbatim>\<open>(\d{2}):(\d{2}):(\d{2})sep(\d{3})\<close> at the head
  of a string and returns the four groups and the rest of the string.
\<close>

fun search :: "(string \<Rightarrow> 'a option) \<Rightarrow> string \<Rightarrow> 'a option" where
  "search m [] = m []"
| "search m (c # cs) = (case m (c # cs) of Some r \<Rightarrow> Some r | None \<Rightarrow> search m cs)"

fun match_timestamp ::
  "char \<Rightarrow> string \<Rightarrow> ((string \<times> string \<times> string \<times> string) \<times> string) option" where
  "match_timestamp sep (a # b # p # c # d # q # e # f # r # g # h # i # rest) =
     (if is_digit a \<and> is_digit b \<and> p = CHR '':'' \<and> is_digit c \<and> is_digit d \<and>
         q = CHR '':'' \<and> is_digit e \<and> is_digit f \<and> r = sep \<and>
         is_digit g \<and> is_digit h \<and> is_digit i
      then Some (([a, b], [c, d], [e, f], [g, h, i]), rest) else None)"
| "match_timestamp sep _ = None"

definition parseTimestamp :: "string \<Rightarrow> real" where
  "parseTimestamp timestamp =
     (case search (match_timestamp CHR ''.'') (replace_first CHR '','' CHR ''.'' timestamp) of
        None \<Rightarrow> 0
      | Some ((hh, mm, ss, mmm), _) \<Rightarrow>
          (let hours = real (parseInt_digits hh);
               minutes = real (parseInt_digits mm);
               seconds = real (parseInt_digits ss);
               milliseconds = real (parseInt_digits mmm)
           in fadd (fadd (fadd (fmul hours 3600) (fmul minutes 60)) seconds)
                (fdiv milliseconds 1000)))"

text \<open>
  The format argument of \<open>formatTimestamp\<close> is \<^verbatim>\<open>'srt'\<close> or \<^verbatim>\<open>'vtt'\<close>; a call without
  it has \<^verbatim>\<open>'srt'\<close>.
\<close>

datatype ts_format = SrtTs | VttTs

definition formatTimestamp :: "real \<Rightarrow> ts_format \<Rightarrow> string" where
  "formatTimestamp seconds format =
     (let hours = \<lfloor>fdiv seconds 3600\<rfloor>;
          minutes = \<lfloor>fdiv (fmod seconds 3600) 60\<rfloor>;
          secs = \<lfloor>fmod seconds 60\<rfloor>;
          ms = \<lfloor>fmul (fmod seconds 1) 1000\<rfloor>;
          separator = (if format = SrtTs then CHR '','' else CHR ''.'')
      in padStart 2 CHR ''0'' (int_to_string hours) @ '':'' @
         padStart 2 CHR ''0'' (int_to_string minutes) @ '':'' @
         padStart 2 CHR ''0'' (int_to_string secs) @ [separator] @
         padStart 3 CHR ''0'' (int_to_string ms))"

text \<open>
  The timestamp string of given fields: two digits each for hours, minutes and
  seconds, the separator, three digits of milliseconds. Every string of the form
  \<^verbatim>\<open>HH:MM:SS,mmm\<close> or \<^verbatim>\<open>HH:MM:SS.mmm\<close> is the \<open>ts_string\<close> of its fields.
\<close>

definition ts_string :: "nat \<Rightarrow> nat \<Rightarrow> nat \<Rightarrow> char \<Rightarrow> nat \<Rightarrow> string" where
  "ts_string h m s sep ms =
     padStart 2 CHR ''0'' (nat_to_string h) @ '':'' @
     padStart 2 CHR ''0'' (nat_to_string m) @ '':'' @
     padStart 2 CHR ''0'' (nat_to_string s) @ [sep] @
     padStart 3 CHR ''0'' (nat_to_string ms)"

section \<open>Subtitle parser (SubtitleParser.ts)\<close>

text \<open>
  Strings. \<open>is_space\<close> is the class \<^verbatim>\<open>\s\<close> of regular expressions, which \<^verbatim>\<open>trim\<close>
  strips too, on the code units below 256; a line terminator is what \<^verbatim>\<open>.\<close> does
  not match. \<open>split_on\<close> is \<^verbatim>\<open>split\<close> on one character and \<open>join_lines\<close> is
  \<^verbatim>\<open>join('\n')\<close>.
\<close>

definition LF :: char where "LF = CHR 0x0A"
definition CR :: char where "CR = CHR 0x0D"

definition is_space :: "char \<Rightarrow> bool" where
  "is_space c = (c \<in> set [CHR 0x09, CHR 0x0A, CHR 0x0B, CHR 0x0C, CHR 0x0D, CHR 0x20, CHR 0xA0])"

definition is_line_terminator :: "char \<Rightarrow> bool" where
  "is_line_terminator c = (c = LF \<or> c = CR)"

definition trim :: "string \<Rightarrow> string" where
  "trim s = rev (dropWhile is_space (rev (dropWhile is_space s)))"

definition starts_with :: "string \<Rightarrow> string \<Rightarrow> bool" where
  "starts_with p s = (take (length p) s = p)"

definition str_includes :: "string \<Rightarrow> string \<Rightarrow> bool" where
  "str_includes p s = (search (\<lambda>t. if starts_with p t then Some () else None) s \<noteq> None)"

fun split_on :: "char \<Rightarrow> string \<Rightarrow> string list" where
  "split_on c [] = [[]]"
| "split_on c (x # xs) =
     (if x = c then [] # split_on c xs
      else (case split_on c xs of l # ls \<Rightarrow> (x # l) # ls | [] \<Rightarrow> [[x]]))"

fun join_lines :: "string list \<Rightarrow> string" where
  "join_lines [] = []"
| "join_lines [l] = l"
| "join_lines (l # ls) = l @ [LF] @ join_lines ls"

text \<open>
  \<open>split_re m\<close> is \<^verbatim>\<open>split\<close> on a regular expression and \<open>replace_re m rep\<close> is
  \<^verbatim>\<open>replace\<close> with a global one: \<open>m\<close> matches the expression at the head of a string
  and returns what follows the match. The expressions used here never match the empty
  string, so the rest is shorter than the string; the test on the lengths only records
  that. The first argument of \<open>split_re\<close> is the piece collected so far.
\<close>

function split_re :: "(string \<Rightarrow> string option) \<Rightarrow> string \<Rightarrow> string \<Rightarrow> string list" where
  "split_re m acc [] = [acc]"
| "split_re m acc (c # cs) =
     (case m (c # cs) of
        Some rest \<Rightarrow>
          if length rest \<le> length cs then acc # split_re m [] rest
          else split_re m (acc @ [c]) cs
      | None \<Rightarrow> split_re m (acc @ [c]) cs)"
  by pat_completeness auto
termination
  by (relation "measure (\<lambda>(m, acc, s). length s)") auto

function replace_re :: "(string \<Rightarrow> string option) \<Rightarrow> string \<Rightarrow> string \<Rightarrow> string" where
  "replace_re m rep [] = []"
| "replace_re m rep (c # cs) =
     (case m (c # cs) of
        Some rest \<Rightarrow>
          if length rest \<le> length cs then rep @ replace_re m rep rest
          else c # replace_re m rep cs
      | None \<Rightarrow> c # replace_re m rep cs)"
  by pat_completeness auto
termination
  by (relation "measure (\<lambda>(m, rep, s). length s)") auto

declare split_re.simps [simp del]

declare replace_re.simps [simp del]

text \<open>
  \<open>match_blank\<close> matches \<^verbatim>\<open>\n\s*\n\<close>: a newline, then the longest run of white space
  that ends in a newline. \<open>match_range sep\<close> matches two timestamps with \<^verbatim>\<open>-->\<close>
  between them, white space allowed around the arrow, and returns the text of both.
  \<open>parseInt\<close> is \<^verbatim>\<open>parseInt(_, 10)\<close>: white space, a sign and the digits that follow,
  \<open>NaN\<close> when there is no digit. The number it returns is the binary64 value nearest to
  the integer written, taken with all its digits: \<open>to_number\<close>, which is an infinity
  from \<open>2\<^sup>1\<^sup>0\<^sup>2\<^sup>4 - 2\<^sup>9\<^sup>7\<^sup>0\<close> on, half a step past the largest finite value.
\<close>

definition match_blank :: "string \<Rightarrow> string option" where
  "match_blank s =
     (case s of
        [] \<Rightarrow> None
      | c # cs \<Rightarrow>
          if c = LF then
            (let w = takeWhile is_space cs
             in if LF \<in> set w
                then Some (rev (takeWhile (\<lambda>x. x \<noteq> LF) (rev w)) @ dropWhile is_space cs)
                else None)
          else None)"

definition match_range :: "char \<Rightarrow> string \<Rightarrow> ((string \<times> string) \<times> string) option" where
  "match_range sep s =
     (case match_timestamp sep s of
        None \<Rightarrow> None
      | Some (_, r1) \<Rightarrow>
          (case dropWhile is_space r1 of
             a # b # c # r2 \<Rightarrow>
               if [a, b, c] = ''-->'' then
                 (let r3 = dropWhile is_space r2
                  in case match_timestamp sep r3 of
                       None \<Rightarrow> None
                     | Some (_, r4) \<Rightarrow> Some ((take 12 s, take 12 r3), r4))
               else None
           | _ \<Rightarrow> None))"

definition to_number :: "int \<Rightarrow> jsnum" where
  "to_number n =
     (if 2 ^ 1024 - 2 ^ 970 \<le> \<bar>real_of_int n\<bar> then (if n < 0 then NegInf else PosInf)
      else Fin (rnd53 (real_of_int n)))"

definition parseInt :: "string \<Rightarrow> jsnum" where
  "parseInt s =
     (let s1 = dropWhile is_space s;
          neg = (case s1 of c # _ \<Rightarrow> c = CHR ''-'' | [] \<Rightarrow> False);
          s2 = (case s1 of c # r \<Rightarrow> if c = CHR ''-'' \<or> c = CHR ''+'' then r else s1 | [] \<Rightarrow> s1);
          ds = takeWhile is_digit s2
      in if ds = [] then NaN
         else to_number (if neg then - int (parseInt_digits ds) else int (parseInt_digits ds)))"

text \<open>
  One pass of the loop of \<open>parseSRT\<close> over block \<open>i\<close>: \<open>None\<close> where the source
  continues with the next block, otherwise the cue pushed.
\<close>

definition srt_block :: "nat \<Rightarrow> string \<Rightarrow> SubtitleCue option" where
  "srt_block i block =
     (if block = [] then None
      else
        (let lines = map trim (split_on LF block)
         in if length lines < 3 then None
            else if lines ! 0 = [] then None
            else
              (let index = parseInt (lines ! 0)
               in if isNaN index then None
                  else if lines ! 1 = [] then None
                  else
                    (case search (match_range CHR '','') (lines ! 1) of
                       None \<Rightarrow> None
                     | Some ((t1, t2), _) \<Rightarrow>
                         Some \<lparr> cue_id = SrtId index,
                                cue_index = int i,
                                cue_start = Fin (parseTimestamp t1),
                                cue_end = Fin (parseTimestamp t2),
                                cue_text = join_lines (drop 2 lines) \<rparr>))))"

definition split_blocks :: "string \<Rightarrow> string list" where
  "split_blocks text = filter (\<lambda>block. trim block \<noteq> []) (split_re match_blank [] text)"

definition parseSRT :: "string \<Rightarrow> SubtitleCue list" where
  "parseSRT text = List.map_filter (\<lambda>(i, block). srt_block i block) (enumerate 0 (split_blocks text))"

text \<open>
  The regular expressions of \<open>parseVTT\<close> and \<open>cleanVTTText\<close>, each as a matcher at the
  head of a string: the header line \<^verbatim>\<open>^WEBVTT.*?\n\<close>, a note \<^verbatim>\<open>NOTE.*?\n\n\<close>, an
  inline timestamp, a style tag \<^verbatim>\<open></?[cibu]>\<close>, a class tag \<^verbatim>\<open><c\.[^>]+>\<close>, a voice
  tag \<^verbatim>\<open><v\s+[^>]+>\<close> and its closing tag, any tag \<^verbatim>\<open><[^>]+>\<close>, and a run of white
  space. \<open>match_tag_body\<close> is the tail \<^verbatim>\<open>[^>]+>\<close> they share.
\<close>

definition match_header :: "string \<Rightarrow> string option" where
  "match_header s =
     (if starts_with ''WEBVTT'' s then
        (case dropWhile (\<lambda>c. \<not> is_line_terminator c) (drop 6 s) of
           c # rest \<Rightarrow> if c = LF then Some rest else None
         | [] \<Rightarrow> None)
      else None)"

definition match_note :: "string \<Rightarrow> string option" where
  "match_note s =
     (if starts_with ''NOTE'' s then
        (case dropWhile (\<lambda>c. \<not> is_line_terminator c) (drop 4 s) of
           a # b # rest \<Rightarrow> if a = LF \<and> b = LF then Some rest else None
         | _ \<Rightarrow> None)
      else None)"

definition match_inline_timestamp :: "string \<Rightarrow> string option" where
  "match_inline_timestamp s =
     (case s of
        c # r \<Rightarrow>
          if c = CHR ''<'' then
            (case match_timestamp CHR ''.'' r of
               Some (_, d # rest) \<Rightarrow> if d = CHR ''>'' then Some rest else None
             | _ \<Rightarrow> None)
          else None
      | [] \<Rightarrow> None)"

definition match_style_tag :: "string \<Rightarrow> string option" where
  "match_style_tag s =
     (case s of
        c # r \<Rightarrow>
          if c = CHR ''<'' then
            (case (case r of d # r' \<Rightarrow> if d = CHR ''/'' then r' else r | [] \<Rightarrow> r) of
               x # y # rest \<Rightarrow> if x \<in> set ''cibu'' \<and> y = CHR ''>'' then Some rest else None
             | _ \<Rightarrow> None)
          else None
      | [] \<Rightarrow> None)"

definition match_tag_body :: "string \<Rightarrow> string option" where
  "match_tag_body r =
     (case dropWhile (\<lambda>c. c \<noteq> CHR ''>'') r of
        _ # rest \<Rightarrow> if takeWhile (\<lambda>c. c \<noteq> CHR ''>'') r \<noteq> [] then Some rest else None
      | [] \<Rightarrow> None)"

definition match_class_style :: "string \<Rightarrow> string option" where
  "match_class_style s = (if starts_with ''<c.'' s then match_tag_body (drop 3 s) else None)"

definition match_voice_tag :: "string \<Rightarrow> string option" where
  "match_voice_tag s =
     (if starts_with ''<v'' s then
        (case drop 2 s of
           c # r \<Rightarrow> if is_space c then match_tag_body r else None
         | [] \<Rightarrow> None)
      else None)"

definition match_voice_close :: "string \<Rightarrow> string option" where
  "match_voice_close s = (if starts_with ''</v>'' s then Some (drop 4 s) else None)"

definition match_any_tag :: "string \<Rightarrow> string option" where
  "match_any_tag s =
     (case s of c # r \<Rightarrow> if c = CHR ''<'' then match_tag_body r else None | [] \<Rightarrow> None)"

definition match_whitespace :: "string \<Rightarrow> string option" where
  "match_whitespace s =
     (case s of c # r \<Rightarrow> if is_space c then Some (dropWhile is_space r) else None | [] \<Rightarrow> None)"

definition cleanVTTText :: "string \<Rightarrow> string" where
  "cleanVTTText text =
     trim
       (replace_re match_whitespace '' ''
         (replace_re match_any_tag ''''
           (replace_re match_voice_close ''''
             (replace_re match_voice_tag ''''
               (replace_re match_class_style ''''
                 (replace_re match_style_tag ''''
                   (replace_re match_inline_timestamp '''' text)))))))"

fun find_time_line :: "string list \<Rightarrow> nat \<Rightarrow> nat option" where
  "find_time_line [] j = None"
| "find_time_line (line # lines) j =
     (if line \<noteq> [] \<and> str_includes ''-->'' line then Some j else find_time_line lines (Suc j))"

definition vtt_block :: "nat \<Rightarrow> string \<Rightarrow> SubtitleCue option" where
  "vtt_block i block =
     (if block = [] then None
      else
        (let lines = map trim (split_on LF block)
         in case find_time_line lines 0 of
              None \<Rightarrow> None
            | Some timeLineIndex \<Rightarrow>
                if lines ! timeLineIndex = [] then None
                else
                  (case search (match_range CHR ''.'') (lines ! timeLineIndex) of
                     None \<Rightarrow> None
                   | Some ((t1, t2), _) \<Rightarrow>
                       Some \<lparr> cue_id =
                                (if timeLineIndex > 0 \<and> lines ! (timeLineIndex - 1) \<noteq> []
                                 then Label (lines ! (timeLineIndex - 1))
                                 else Label (''vtt-'' @ nat_to_string i)),
                              cue_index = int i,
                              cue_start = Fin (parseTimestamp t1),
                              cue_end = Fin (parseTimestamp t2),
                              cue_text =
                                cleanVTTText (join_lines (drop (timeLineIndex + 1) lines)) \<rparr>)))"

definition parseVTT :: "string \<Rightarrow> SubtitleCue list" where
  "parseVTT text =
     (let text1 = (case match_header text of Some rest \<Rightarrow> rest | None \<Rightarrow> text);
          text2 = replace_re match_note '''' text1
      in List.map_filter (\<lambda>(i, block). vtt_block i block) (enumerate 0 (split_blocks text2)))"

text \<open>
  \<open>detectFormat\<close>. The test \<^verbatim>\<open>/^\d+\s*$/m\<close> on the first line holds when, from the
  start of the line or from just after a line terminator in it, there are digits, then
  white space up to the end or up to a line terminator.
\<close>

definition match_digits_line :: "string \<Rightarrow> bool" where
  "match_digits_line s =
     (takeWhile is_digit s \<noteq> [] \<and>
      (let r = dropWhile is_digit s; w = takeWhile is_space r
       in w = r \<or> (\<exists>c \<in> set w. is_line_terminator c)))"

fun any_line_start :: "(string \<Rightarrow> bool) \<Rightarrow> string \<Rightarrow> bool" where
  "any_line_start P [] = False"
| "any_line_start P (c # cs) =
     ((is_line_terminator c \<and> P cs) \<or> any_line_start P cs)"

definition detectFormat :: "string \<Rightarrow> SubtitleFormat" where
  "detectFormat text =
     (let trimmed = trim text
      in if starts_with ''WEBVTT'' trimmed then Vtt
         else
           (let firstLine = hd (split_on LF trimmed)
            in if firstLine \<noteq> [] \<and>
                  (match_digits_line firstLine \<or> any_line_start match_digits_line firstLine)
               then Srt
               else if str_includes ''[Script Info]'' trimmed then Ass
               else Unknown))"

definition parse :: "string \<Rightarrow> SubtitleFormat option \<Rightarrow> SubtitleCue list" where
  "parse text format =
     (if trim text = [] then []
      else
        (case (case format of Some f \<Rightarrow> f | None \<Rightarrow> detectFormat text) of
           Srt \<Rightarrow> parseSRT text
         | Vtt \<Rightarrow> parseVTT text
         | Ass \<Rightarrow> []
         | Unknown \<Rightarrow> []))"

definition validate :: "SubtitleCue list \<Rightarrow> bool" where
  "validate cues =
     (cues \<noteq> [] \<and>
      list_all (\<lambda>cue. \<not> (ident_empty (cue_id cue) \<or> num_lt (cue_start cue) (Fin 0) \<or>
                          num_le (cue_end cue) (cue_start cue) \<or> cue_text cue = [])) cues)"

text \<open>
  Valid input. \<open>instant t\<close> is the instant in seconds that a timestamp \<^verbatim>\<open>HH:MM:SS,mmm\<close> or
  \<^verbatim>\<open>HH:MM:SS.mmm\<close> denotes, in exact arithmetic. A block is valid when its time line,
  if it has one with a time range, has a second timestamp that denotes a later instant
  than the first and is followed by text: in the numbered format a line that is not
  blank, in the WebVTT format lines that are not blank once their tags are removed. An
  input is valid for the format it is parsed in when every block of it is.
\<close>

definition instant :: "string \<Rightarrow> real" where
  "instant t =
     3600 * real (parseInt_digits (take 2 t)) + 60 * real (parseInt_digits (take 2 (drop 3 t))) +
     real (parseInt_digits (take 2 (drop 6 t))) + real (parseInt_digits (take 3 (drop 9 t))) / 1000"

definition valid_srt_block :: "string \<Rightarrow> bool" where
  "valid_srt_block block =
     (let lines = map trim (split_on LF block)
      in if length lines < 3 then True
         else
           (case search (match_range CHR '','') (lines ! 1) of
              None \<Rightarrow> True
            | Some ((t1, t2), _) \<Rightarrow>
                instant t1 < instant t2 \<and> list_ex (\<lambda>line. line \<noteq> []) (drop 2 lines)))"

definition valid_vtt_block :: "string \<Rightarrow> bool" where
  "valid_vtt_block block =
     (let lines = map trim (split_on LF block)
      in case find_time_line lines 0 of
           None \<Rightarrow> True
         | Some timeLineIndex \<Rightarrow>
             (case search (match_range CHR ''.'') (lines ! timeLineIndex) of
                None \<Rightarrow> True
              | Some ((t1, t2), _) \<Rightarrow>
                  instant t1 < instant t2 \<and>
                  cleanVTTText (join_lines (drop (timeLineIndex + 1) lines)) \<noteq> []))"

definition valid_input :: "string \<Rightarrow> SubtitleFormat option \<Rightarrow> bool" where
  "valid_input text format =
     (case (case format of Some f \<Rightarrow> f | None \<Rightarrow> detectFormat text) of
        Srt \<Rightarrow> list_all valid_srt_block (split_blocks text)
      | Vtt \<Rightarrow>
          list_all valid_vtt_block
            (split_blocks
              (replace_re match_note ''''
                (case match_header text of Some rest \<Rightarrow> rest | None \<Rightarrow> text)))
      | Ass \<Rightarrow> True
      | Unknown \<Rightarrow> True)"

text \<open>
  Three inputs in the numbered format: a block whose second timestamp is before the
  first, a block whose text line is a single space, and the block of the specification.
\<close>

definition exReversed :: string where
  "exReversed = ''1'' @ [LF] @ ''00:00:04,000 --> 00:00:01,000'' @ [LF] @ ''Hello''"

definition exBlankText :: string where
  "exBlankText = ''1'' @ [LF] @ ''00:00:01,000 --> 00:00:04,000'' @ [LF] @ '' ''"

definition exHello :: string where
  "exHello = ''1'' @ [LF] @ ''00:00:01,000 --> 00:00:04,000'' @ [LF] @ ''Hello world''"

text \<open>
  An input in the WebVTT format with one cue whose text has a tag, and the one block
  that \<open>parseVTT\<close> splits it into.
\<close>

definition exVtt :: string where
  "exVtt = ''WEBVTT'' @ [LF, LF] @ ''00:00:01.000 --> 00:00:04.000'' @ [LF] @ ''<i>Hello</i> world''"

definition exVttBlock :: string where
  "exVttBlock = [LF] @ ''00:00:01.000 --> 00:00:04.000'' @ [LF] @ ''<i>Hello</i> world''"

section \<open>Example data\<close>

text \<open>Two cues with a silent gap between them, from 1 s to 2 s.\<close>

definition exCues :: "SubtitleCue list" where
  "exCues =
     [\<lparr>cue_id = SrtId (Fin 1), cue_index = 0, cue_start = Fin 0, cue_end = Fin 1, cue_text = ''a''\<rparr>,
      \<lparr>cue_id = SrtId (Fin 2), cue_index = 1, cue_start = Fin 2, cue_end = Fin 3, cue_text = ''b''\<rparr>]"

text \<open>
  A store with the two cues loaded and a player attached, after a segment loop of
  three repetitions is started on the last cue (index 1, from 2 s to 3 s), and after
  one is started on the first cue (index 0, from 0 s to 1 s).
\<close>

definition exLast :: MediaState where
  "exLast =
     startSegmentLoop (Fin 2) (Fin 3) 3 1
       (initialState\<lparr>playerRef := Some [], subtitles := exCues\<rparr>)"

definition exFirst :: MediaState where
  "exFirst =
     startSegmentLoop (Fin 0) (Fin 1) 3 0
       (initialState\<lparr>playerRef := Some [], subtitles := exCues\<rparr>)"

section \<open>Rejected A/B points\<close>

text \<open>
  C6. \<open>setPointA t\<close> with \<open>t\<close> negative or \<open>NaN\<close>, and \<open>setPointB t\<close> with \<open>t\<close> negative,
  \<open>NaN\<close>, or not strictly greater than the current point A (also when no point A is
  set), return the state they were given, whole. The actions have no failing branch:
  each is a total function on states.
\<close>

theorem setPoint_rejects_invalid:
  "(isNaN t \<or> num_lt t (Fin 0) \<longrightarrow> setPointA t s = s) \<and>
   (isNaN t \<or> num_lt t (Fin 0) \<or> pointA s = None \<or>
      (\<exists>a. pointA s = Some a \<and> \<not> num_gt t a) \<longrightarrow> setPointB t s = s)"
  by (auto simp: setPointA_def setPointB_def split: option.splits)

theorem setPoint_rejects_invalid_witness:
  "setPointA NaN initialState = initialState \<and>
   setPointB (Fin 5) initialState = initialState \<and>
   setPointB (Fin 3) (setPointA (Fin 5) initialState) = setPointA (Fin 5) initialState"
proof -
  have nan: "isNaN NaN \<or> num_lt NaN (Fin 0)"
    by (simp add: isNaN_def)
  have noA: "pointA initialState = None"
    by (simp add: initialState_def)
  have before: "\<exists>a. pointA (setPointA (Fin 5) initialState) = Some a \<and> \<not> num_gt (Fin 3) a"
    by (simp add: setPointA_def isNaN_def num_gt_def)
  from setPoint_rejects_invalid [of NaN initialState] nan
  have 1: "setPointA NaN initialState = initialState" by blast
  from setPoint_rejects_invalid [of "Fin 5" initialState] noA
  have 2: "setPointB (Fin 5) initialState = initialState" by blast
  from setPoint_rejects_invalid [of "Fin 3" "setPointA (Fin 5) initialState"] before
  have 3: "setPointB (Fin 3) (setPointA (Fin 5) initialState) = setPointA (Fin 5) initialState"
    by blast
  from 1 2 3 show ?thesis by blast
qed

section \<open>Mode exclusivity\<close>

lemma enableLoop_modes: "activeModes (enableLoop a b s) = [SimpleLoop]"
  by (simp add: activeModes_def enableLoop_def Let_def stopSegmentLoop_def
      disableABRepeat_def disableShadowing_def)

lemma startSegmentLoop_modes: "activeModes (startSegmentLoop a b n i s) = [SegmentLoop]"
  by (simp add: activeModes_def startSegmentLoop_def Let_def disableLoop_def
      disableABRepeat_def disableShadowing_def player_send_def split: option.splits)

lemma enableShadowing_modes: "activeModes (enableShadowing s) = [Shadowing]"
  by (simp add: activeModes_def enableShadowing_def Let_def stopSegmentLoop_def
      disableABRepeat_def disableLoop_def)

lemma enableABRepeat_modes:
  "pointA s = Some a \<Longrightarrow> pointB s = Some b \<Longrightarrow> num_gt b a \<Longrightarrow>
   activeModes (enableABRepeat s) = [ABRepeat]"
  by (simp add: activeModes_def enableABRepeat_def Let_def stopSegmentLoop_def
      disableShadowing_def disableLoop_def)

lemma enableABRepeat_rejected:
  "\<not> (\<exists>a b. pointA s = Some a \<and> pointB s = Some b \<and> num_gt b a) \<Longrightarrow> enableABRepeat s = s"
  by (auto simp: enableABRepeat_def split: option.splits)

text \<open>
  C3, as stated, fails. After \<open>enableLoop\<close> the simple loop is the one active mode; an
  \<open>enableABRepeat\<close> with no A/B points then leaves the simple loop active and A/B repeat
  off, so the operation has not disabled the other mode. From a state with two modes
  active the same call leaves both active.
\<close>

theorem mode_exclusivity_counterexample:
  "activeModes (enableLoop (Fin 0) (Fin 5) initialState) = [SimpleLoop] \<and>
   activeModes (enableABRepeat (enableLoop (Fin 0) (Fin 5) initialState)) = [SimpleLoop] \<and>
   activeModes (initialState\<lparr>loopEnabled := True, shadowingEnabled := True\<rparr>)
     = [SimpleLoop, Shadowing] \<and>
   activeModes (enableABRepeat (initialState\<lparr>loopEnabled := True, shadowingEnabled := True\<rparr>))
     = [SimpleLoop, Shadowing]"
  by (simp add: activeModes_def enableLoop_def enableABRepeat_def initialState_def)

text \<open>
  C3, amended. From every state, \<open>enableLoop\<close>, \<open>startSegmentLoop\<close> and \<open>enableShadowing\<close>
  leave their own mode as the one active mode. \<open>enableABRepeat\<close> does so when both points
  are set with B after A; otherwise it is rejected and the state, with whatever modes it
  has, stays as it was. So from a state with exactly one mode active, each of the four
  operations leaves exactly one mode active.
\<close>

theorem enable_mode_exclusive:
  "activeModes (enableLoop a b s) = [SimpleLoop] \<and>
   activeModes (startSegmentLoop a b n i s) = [SegmentLoop] \<and>
   activeModes (enableShadowing s) = [Shadowing] \<and>
   ((\<exists>pa pb. pointA s = Some pa \<and> pointB s = Some pb \<and> num_gt pb pa) \<longrightarrow>
      activeModes (enableABRepeat s) = [ABRepeat]) \<and>
   (\<not> (\<exists>pa pb. pointA s = Some pa \<and> pointB s = Some pb \<and> num_gt pb pa) \<longrightarrow>
      enableABRepeat s = s) \<and>
   (length (activeModes s) = 1 \<longrightarrow> length (activeModes (enableABRepeat s)) = 1)"
proof -
  have one: "length (activeModes (enableABRepeat s)) = 1" if "length (activeModes s) = 1"
  proof (cases "\<exists>pa pb. pointA s = Some pa \<and> pointB s = Some pb \<and> num_gt pb pa")
    case True
    then show ?thesis using enableABRepeat_modes [of s] by auto
  next
    case False
    then show ?thesis using enableABRepeat_rejected [of s] that by simp
  qed
  with enableLoop_modes startSegmentLoop_modes enableShadowing_modes
    enableABRepeat_modes [of s] enableABRepeat_rejected [of s]
  show ?thesis by blast
qed

theorem enable_mode_exclusive_witness:
  "activeModes (enableABRepeat
      (setPointB (Fin 2) (setPointA (Fin 1) (enableShadowing initialState)))) = [ABRepeat] \<and>
   enableABRepeat (enableShadowing initialState) = enableShadowing initialState \<and>
   activeModes (enableLoop (Fin 0) (Fin 5) (enableShadowing initialState)) = [SimpleLoop] \<and>
   length (activeModes (enableShadowing initialState)) = 1 \<and>
   length (activeModes (enableABRepeat (enableShadowing initialState))) = 1"
proof -
  let ?s = "setPointB (Fin 2) (setPointA (Fin 1) (enableShadowing initialState))"
  have valid: "\<exists>pa pb. pointA ?s = Some pa \<and> pointB ?s = Some pb \<and> num_gt pb pa"
    by (simp add: setPointA_def setPointB_def isNaN_def num_gt_def)
  have invalid: "\<not> (\<exists>pa pb. pointA (enableShadowing initialState) = Some pa \<and>
      pointB (enableShadowing initialState) = Some pb \<and> num_gt pb pa)"
    by (simp add: enableShadowing_def initialState_def)
  have single: "length (activeModes (enableShadowing initialState)) = 1"
    by (simp add: enableShadowing_modes)
  from enable_mode_exclusive [of "Fin 0" "Fin 5" ?s 3 0] valid
  have 1: "activeModes (enableABRepeat ?s) = [ABRepeat]" by blast
  from enable_mode_exclusive [of "Fin 0" "Fin 5" "enableShadowing initialState" 3 0] invalid single
  have 2: "enableABRepeat (enableShadowing initialState) = enableShadowing initialState"
    and 3: "activeModes (enableLoop (Fin 0) (Fin 5) (enableShadowing initialState)) = [SimpleLoop]"
    and 4: "length (activeModes (enableABRepeat (enableShadowing initialState))) = 1"
    by blast+
  from 1 2 3 4 single show ?thesis by blast
qed

section \<open>Setting point B\<close>

lemma num_gt_valid: "num_ge a (Fin 0) \<Longrightarrow> num_gt t a \<Longrightarrow> \<not> isNaN t \<and> \<not> num_lt t (Fin 0)"
  by (cases a; cases t) (auto simp: num_ge_def num_le_def num_gt_def isNaN_def)

text \<open>
  C5, as stated, fails: with point A at 1 s, \<open>setPointB\<close> at 2 s records point B and
  leaves A/B repeat disabled.
\<close>

theorem setPointB_no_auto_enable_counterexample:
  "pointA (setPointA (Fin 1) initialState) = Some (Fin 1) \<and>
   num_gt (Fin 2) (Fin 1) \<and>
   pointB (setPointB (Fin 2) (setPointA (Fin 1) initialState)) = Some (Fin 2) \<and>
   \<not> abRepeatEnabled (setPointB (Fin 2) (setPointA (Fin 1) initialState))"
  by (simp add: setPointA_def setPointB_def initialState_def isNaN_def num_gt_def)

text \<open>
  C5, amended. When point A is set to a valid value (not \<open>NaN\<close>, not negative) and \<open>t\<close> is
  strictly greater, \<open>setPointB t\<close> records point B and changes nothing else, so
  \<open>abRepeatEnabled\<close> keeps its value; the separate call \<open>enableABRepeat\<close> that the callers
  make next then enables A/B repeat.
\<close>

theorem setPointB_then_enable:
  assumes "pointA s = Some a" and "num_ge a (Fin 0)" and "num_gt t a"
  shows "setPointB t s = s\<lparr>pointB := Some t\<rparr> \<and>
         abRepeatEnabled (setPointB t s) = abRepeatEnabled s \<and>
         abRepeatEnabled (enableABRepeat (setPointB t s)) \<and>
         pointB (enableABRepeat (setPointB t s)) = Some t"
proof -
  from num_gt_valid [OF assms(2,3)] assms(1,3)
  have eq: "setPointB t s = s\<lparr>pointB := Some t\<rparr>"
    by (simp add: setPointB_def)
  show ?thesis
    unfolding eq using assms(1,3)
    by (simp add: enableABRepeat_def Let_def stopSegmentLoop_def disableLoop_def
        disableShadowing_def)
qed

theorem setPointB_then_enable_witness:
  "setPointB (Fin 2) (setPointA (Fin 1) initialState)
     = (setPointA (Fin 1) initialState)\<lparr>pointB := Some (Fin 2)\<rparr> \<and>
   \<not> abRepeatEnabled (setPointB (Fin 2) (setPointA (Fin 1) initialState)) \<and>
   abRepeatEnabled (enableABRepeat (setPointB (Fin 2) (setPointA (Fin 1) initialState)))"
proof -
  have a: "pointA (setPointA (Fin 1) initialState) = Some (Fin 1)"
    by (simp add: setPointA_def isNaN_def)
  have v: "num_ge (Fin 1) (Fin 0)" by (simp add: num_ge_def num_le_def)
  have g: "num_gt (Fin 2) (Fin 1)" by (simp add: num_gt_def)
  have off: "\<not> abRepeatEnabled (setPointA (Fin 1) initialState)"
    by (simp add: setPointA_def isNaN_def initialState_def)
  from setPointB_then_enable [OF a v g] off show ?thesis by blast
qed

section \<open>Segment loop repetitions\<close>

lemma playNextSegment_end:
  "segmentLoopIndex s \<noteq> - 1 \<Longrightarrow> int (length (subtitles s)) \<le> segmentLoopIndex s + 1 \<Longrightarrow>
   playNextSegment s = s"
  by (simp add: playNextSegment_def Let_def)

lemma loopControl_segment:
  "segmentLoopEnabled s \<Longrightarrow> \<not> abRepeatEnabled s \<Longrightarrow> num_ge t (loopEnd s) \<Longrightarrow>
   loopControl h apn t s =
     (if segmentLoopCurrent s < segmentLoopTotal s - 1
      then ([SeekTo (loopStart s)], incrementLoopCount s)
      else if apn then ([], playNextSegment s)
      else ([PauseVideo], stopSegmentLoop s))"
  by (simp add: loopControl_def split: option.splits)

lemma exLast_fields:
  "segmentLoopEnabled exLast" "segmentLoopCurrent exLast = 0" "segmentLoopTotal exLast = 3"
  "segmentLoopIndex exLast = 1" "loopStart exLast = Fin 2" "loopEnd exLast = Fin 3"
  "\<not> abRepeatEnabled exLast" "subtitles exLast = exCues"
  by (simp_all add: exLast_def startSegmentLoop_def Let_def initialState_def player_send_def)

lemma exFirst_fields:
  "segmentLoopEnabled exFirst" "segmentLoopCurrent exFirst = 0" "segmentLoopTotal exFirst = 3"
  "segmentLoopIndex exFirst = 0" "loopStart exFirst = Fin 0" "loopEnd exFirst = Fin 1"
  "\<not> abRepeatEnabled exFirst" "subtitles exFirst = exCues"
  "playerRef exFirst = Some [SeekTo (Fin 0)]"
  by (simp_all add: exFirst_def startSegmentLoop_def Let_def initialState_def player_send_def)

text \<open>
  C7. A segment loop of three repetitions is started on the last cue, with auto-advance
  configured. A tick whose time has reached the end of the cue is a boundary crossing.
  The first two crossings seek the player to the start of the cue and raise the count
  to 1 and to 2. The third crossing calls \<open>playNextSegment\<close>, which finds no next cue
  and returns: no call is made on the player and the state is the one before the
  crossing, with segment-loop mode still enabled and the count still 2, so every later
  tick past the end of the cue does the same. The mode is not left.

  On the same state without auto-advance the third crossing pauses the player and
  clears the mode. With auto-advance on the first cue, which has a next cue, the
  third crossing starts the segment loop of the next cue: index 1, count 0, from 2 s to
  3 s, with the player sent there and told to play.
\<close>

theorem segment_loop_last_cue_stays:
  "loopControl (Fin 0) True (Fin 3) exLast = ([SeekTo (Fin 2)], incrementLoopCount exLast) \<and>
   segmentLoopCurrent (incrementLoopCount exLast) = 1 \<and>
   loopControl (Fin 0) True (Fin 3) (incrementLoopCount exLast)
     = ([SeekTo (Fin 2)], incrementLoopCount (incrementLoopCount exLast)) \<and>
   segmentLoopCurrent (incrementLoopCount (incrementLoopCount exLast)) = 2 \<and>
   loopControl (Fin 0) True (Fin 3) (incrementLoopCount (incrementLoopCount exLast))
     = ([], incrementLoopCount (incrementLoopCount exLast)) \<and>
   segmentLoopEnabled (incrementLoopCount (incrementLoopCount exLast)) \<and>
   loopControl (Fin 0) False (Fin 3) (incrementLoopCount (incrementLoopCount exLast))
     = ([PauseVideo], stopSegmentLoop (incrementLoopCount (incrementLoopCount exLast))) \<and>
   \<not> segmentLoopEnabled (stopSegmentLoop (incrementLoopCount (incrementLoopCount exLast))) \<and>
   fst (loopControl (Fin 0) True (Fin 1) (incrementLoopCount (incrementLoopCount exFirst))) = [] \<and>
   segmentLoopEnabled
     (snd (loopControl (Fin 0) True (Fin 1) (incrementLoopCount (incrementLoopCount exFirst)))) \<and>
   segmentLoopIndex
     (snd (loopControl (Fin 0) True (Fin 1) (incrementLoopCount (incrementLoopCount exFirst)))) = 1 \<and>
   segmentLoopCurrent
     (snd (loopControl (Fin 0) True (Fin 1) (incrementLoopCount (incrementLoopCount exFirst)))) = 0 \<and>
   loopStart
     (snd (loopControl (Fin 0) True (Fin 1) (incrementLoopCount (incrementLoopCount exFirst))))
     = Fin 2 \<and>
   loopEnd
     (snd (loopControl (Fin 0) True (Fin 1) (incrementLoopCount (incrementLoopCount exFirst))))
     = Fin 3 \<and>
   playerRef
     (snd (loopControl (Fin 0) True (Fin 1) (incrementLoopCount (incrementLoopCount exFirst))))
     = Some [SeekTo (Fin 0), SeekTo (Fin 2), PlayVideo, SeekTo (Fin 2)]"
proof -
  define s1 where "s1 = incrementLoopCount exLast"
  define s2 where "s2 = incrementLoopCount s1"
  have f1: "segmentLoopEnabled s1" "segmentLoopCurrent s1 = 1" "segmentLoopTotal s1 = 3"
    "segmentLoopIndex s1 = 1" "loopStart s1 = Fin 2" "loopEnd s1 = Fin 3"
    "\<not> abRepeatEnabled s1" "subtitles s1 = exCues"
    using exLast_fields by (simp_all add: s1_def incrementLoopCount_def)
  have f2: "segmentLoopEnabled s2" "segmentLoopCurrent s2 = 2" "segmentLoopTotal s2 = 3"
    "segmentLoopIndex s2 = 1" "loopStart s2 = Fin 2" "loopEnd s2 = Fin 3"
    "\<not> abRepeatEnabled s2" "subtitles s2 = exCues"
    using f1 by (simp_all add: s2_def incrementLoopCount_def)
  have ge: "num_ge (Fin 3) (Fin 3)" by (simp add: num_ge_def num_le_def)
  have l1: "loopControl (Fin 0) True (Fin 3) exLast = ([SeekTo (Fin 2)], s1)"
    using loopControl_segment [of exLast "Fin 3" "Fin 0" True] exLast_fields ge
    by (simp add: s1_def)
  have l2: "loopControl (Fin 0) True (Fin 3) s1 = ([SeekTo (Fin 2)], s2)"
    using loopControl_segment [of s1 "Fin 3" "Fin 0" True] f1 ge by (simp add: s2_def)
  have nx: "playNextSegment s2 = s2"
    using f2 by (intro playNextSegment_end) (simp_all add: exCues_def)
  have l3: "loopControl (Fin 0) True (Fin 3) s2 = ([], s2)"
    using loopControl_segment [of s2 "Fin 3" "Fin 0" True] f2 ge nx by simp
  have l4: "loopControl (Fin 0) False (Fin 3) s2 = ([PauseVideo], stopSegmentLoop s2)"
    using loopControl_segment [of s2 "Fin 3" "Fin 0" False] f2 ge by simp
  have st: "\<not> segmentLoopEnabled (stopSegmentLoop s2)" by (simp add: stopSegmentLoop_def)
  define u2 where "u2 = incrementLoopCount (incrementLoopCount exFirst)"
  have g2: "segmentLoopEnabled u2" "segmentLoopCurrent u2 = 2" "segmentLoopTotal u2 = 3"
    "segmentLoopIndex u2 = 0" "loopStart u2 = Fin 0" "loopEnd u2 = Fin 1"
    "\<not> abRepeatEnabled u2" "subtitles u2 = exCues" "playerRef u2 = Some [SeekTo (Fin 0)]"
    using exFirst_fields by (simp_all add: u2_def incrementLoopCount_def)
  have ge1: "num_ge (Fin 1) (Fin 1)" by (simp add: num_ge_def num_le_def)
  have l5: "loopControl (Fin 0) True (Fin 1) u2 = ([], playNextSegment u2)"
    using loopControl_segment [of u2 "Fin 1" "Fin 0" True] g2 ge1 by simp
  have nxt: "segmentLoopEnabled (playNextSegment u2)" "segmentLoopIndex (playNextSegment u2) = 1"
    "segmentLoopCurrent (playNextSegment u2) = 0" "loopStart (playNextSegment u2) = Fin 2"
    "loopEnd (playNextSegment u2) = Fin 3"
    "playerRef (playNextSegment u2)
       = Some [SeekTo (Fin 0), SeekTo (Fin 2), PlayVideo, SeekTo (Fin 2)]"
    using g2 by (simp_all add: playNextSegment_def Let_def exCues_def startSegmentLoop_def
        player_send_def disableLoop_def disableABRepeat_def disableShadowing_def)
  show ?thesis
    unfolding s1_def [symmetric] s2_def [symmetric] u2_def [symmetric]
    using f1 f2 l1 l2 l3 l4 st l5 nxt by simp
qed

section \<open>Termination of the worker manager\<close>

text \<open>
  C10. One request is in flight when \<open>terminate\<close> is called. The worker is released and
  the table of pending requests is emptied, but the promise of the request is still
  pending, not rejected; the 30 second timer and a late result find no entry and leave
  it pending. \<open>handleError\<close>, on the same state, rejects the promise.
\<close>

theorem terminate_leaves_pending:
  "(let (r, m1) = parse_request ''1'' None False newManager;
        m2 = terminate m1
    in r = Inr 0 \<and> pendingRequests m1 = [(0, False)] \<and> promises m1 0 = Some Pending \<and>
       worker m2 = None \<and> pendingRequests m2 = [] \<and>
       promises m2 0 = Some Pending \<and>
       promises (parse_timeout 0 m2) 0 = Some Pending \<and>
       promises (handleMessage (Result 0 (Some [])) m2) 0 = Some Pending \<and>
       promises (handleError ''x'' m1) 0 = Some (Rejected ''Worker error: x''))"
  by (simp add: parse_request_def newManager_def terminate_def parse_timeout_def
      handleMessage_def handleError_def settle_def response_id_def)

section \<open>Cue lookup\<close>

text \<open>
  C1. No cue of \<open>exCues\<close> contains 1.5 s, which lies in the gap between the two cues,
  so the lookup should return \<open>-1\<close>. The search without a hint returns index 0, the cue
  before the gap: the binary search keeps the last probed cue that has started and
  returns it when no cue contains the time.
\<close>

theorem findIndexAtTime_gap_returns_cue:
  "\<not> (\<exists>i<length exCues. cue_contains (exCues ! i) (Fin (3 / 2))) \<and>
   findIndexAtTime exCues (Fin (3 / 2)) (- 1) = 0 \<and>
   findIndexAtTime exCues (Fin (3 / 2)) (- 1) \<noteq> - 1"
proof -
  have "\<forall>i<length exCues. \<not> cue_contains (exCues ! i) (Fin (3 / 2))"
    by (simp add: exCues_def cue_contains_def num_ge_def num_le_def All_less_Suc)
  moreover have "findIndexAtTime exCues (Fin (3 / 2)) (- 1) = 0"
    by (simp add: findIndexAtTime_def findIndexAtTime_hint_def exCues_def num_ge_def num_le_def
        findIndexAtTime_loop.simps)
  ultimately show ?thesis by simp
qed

text \<open>
  C2. On \<open>exCues\<close> at 1.5 s the search with hint 0 returns \<open>-1\<close> and the search without a
  hint returns 0.
\<close>

theorem findIndexAtTime_hint_disagrees:
  "findIndexAtTime exCues (Fin (3 / 2)) 0 = - 1 \<and>
   findIndexAtTime exCues (Fin (3 / 2)) (- 1) = 0"
  by (simp add: findIndexAtTime_def findIndexAtTime_hint_def exCues_def num_ge_def num_le_def
      findIndexAtTime_loop.simps)

section \<open>Rounding to binary64\<close>

text \<open>
  Rounding to the nearest binary64 value is monotone on the non-negative numbers and
  leaves every \<open>k / 2\<^sup>j\<close> with \<open>0 \<le> k < 2\<^sup>5\<^sup>3\<close> as it is. From the two facts, a
  non-negative number up to \<open>2\<^sup>2\<^sup>2\<close> moves by at most \<open>2\<^sup>-\<^sup>3\<^sup>0\<close> when it is rounded,
  which is all the analysis of the timestamp functions needs.
\<close>

lemma rne_of_int [simp]: "rne (of_int n) = n"
  by (simp add: rne_def)

lemma rne_bounds: "\<lfloor>x\<rfloor> \<le> rne x \<and> rne x \<le> \<lfloor>x\<rfloor> + 1"
  by (simp add: rne_def Let_def)

lemma rne_mono: "x \<le> y \<Longrightarrow> rne x \<le> rne y"
proof -
  assume le: "x \<le> y"
  then have fl: "\<lfloor>x\<rfloor> \<le> \<lfloor>y\<rfloor>" by (rule floor_mono)
  show ?thesis
  proof (cases "\<lfloor>x\<rfloor> = \<lfloor>y\<rfloor>")
    case True
    with le show ?thesis by (auto simp: rne_def Let_def)
  next
    case False
    with fl have "\<lfloor>x\<rfloor> + 1 \<le> \<lfloor>y\<rfloor>" by simp
    with rne_bounds [of x] rne_bounds [of y] show ?thesis by linarith
  qed
qed

lemma rne_ge: "of_int n \<le> x \<Longrightarrow> n \<le> rne x"
  using rne_mono [of "of_int n" x] by simp

lemma rne_le: "x \<le> of_int n \<Longrightarrow> rne x \<le> n"
  using rne_mono [of x "of_int n"] by simp

lemma binade_bounds:
  assumes "0 < x"
  shows "2 powi binade x \<le> x" and "x < 2 powi (binade x + 1)"
proof -
  have "2 powr (of_int (binade x)) \<le> x \<and> x < 2 powr (of_int (binade x) + 1)"
    using floor_log_eq_powr_iff [of x 2 "binade x"] assms by (simp add: binade_def)
  then show "2 powi binade x \<le> x" and "x < 2 powi (binade x + 1)"
    using powr_real_of_int' [of 2 "binade x"] powr_real_of_int' [of 2 "binade x + 1"]
    by simp_all
qed

lemma binade_eqI: "0 < x \<Longrightarrow> 2 powi e \<le> x \<Longrightarrow> x < 2 powi (e + 1) \<Longrightarrow> binade x = e"
  using floor_log_eq_powr_iff [of x 2 e] powr_real_of_int' [of 2 e] powr_real_of_int' [of 2 "e + 1"]
  by (simp add: binade_def)

lemma binade_mono: "0 < x \<Longrightarrow> x \<le> y \<Longrightarrow> binade x \<le> binade y"
  by (simp add: binade_def floor_mono)

lemma ulp_pos [simp]: "0 < ulp x"
  by (simp add: ulp_def)

lemma rnd53_zero [simp]: "rnd53 0 = 0"
  by (simp add: rnd53_def)

lemma rnd53_pos_eq: "0 < x \<Longrightarrow> rnd53 x = of_int (rne (x / ulp x)) * ulp x"
  by (simp add: rnd53_def)

lemma scaled_bounds:
  assumes "0 < x"
  shows "2 ^ 52 \<le> x / ulp x" and "x / ulp x < 2 ^ 53"
proof -
  have u: "ulp x = 2 powi binade x / 2 ^ 52"
    by (simp add: ulp_def power_int_diff)
  from binade_bounds [OF assms] show "2 ^ 52 \<le> x / ulp x"
    by (simp add: u field_simps)
  have "2 powi (binade x + 1) = 2 * (2::real) powi binade x"
    by (simp add: power_int_add)
  with binade_bounds [OF assms] show "x / ulp x < 2 ^ 53"
    by (simp add: u field_simps)
qed

lemma rnd53_pos_bounds:
  assumes "0 < x"
  shows "2 powi binade x \<le> rnd53 x" and "rnd53 x \<le> 2 powi (binade x + 1)"
proof -
  have u: "ulp x = 2 powi binade x / 2 ^ 52"
    by (simp add: ulp_def power_int_diff)
  have "(2::int) ^ 52 \<le> rne (x / ulp x)"
    using scaled_bounds(1) [OF assms] by (intro rne_ge) simp
  then have "(2::real) ^ 52 \<le> of_int (rne (x / ulp x))"
    by (metis of_int_le_iff of_int_numeral of_int_power)
  then have "2 ^ 52 * ulp x \<le> of_int (rne (x / ulp x)) * ulp x"
    by (simp add: mult_right_mono)
  then show "2 powi binade x \<le> rnd53 x"
    by (simp add: rnd53_pos_eq [OF assms] u)
  have "rne (x / ulp x) \<le> (2::int) ^ 53"
    using scaled_bounds(2) [OF assms] by (intro rne_le) simp
  then have "of_int (rne (x / ulp x)) \<le> (2::real) ^ 53"
    by (metis of_int_le_iff of_int_numeral of_int_power)
  then have "of_int (rne (x / ulp x)) * ulp x \<le> 2 ^ 53 * ulp x"
    by (simp add: mult_right_mono)
  moreover have "2 ^ 53 * ulp x = 2 powi (binade x + 1)"
    by (simp add: u power_int_add)
  ultimately show "rnd53 x \<le> 2 powi (binade x + 1)"
    unfolding rnd53_pos_eq [OF assms] by linarith
qed

lemma rnd53_nonneg: "0 \<le> x \<Longrightarrow> 0 \<le> rnd53 x"
proof (cases "x = 0")
  case False
  assume "0 \<le> x"
  with False have "0 < x" by simp
  from rnd53_pos_bounds(1) [OF this] show ?thesis
    by (meson order_trans zero_less_power_int less_imp_le zero_less_numeral)
qed simp

lemma rnd53_mono:
  assumes "0 \<le> x" and "x \<le> y"
  shows "rnd53 x \<le> rnd53 y"
proof (cases "x = 0")
  case True
  with assms rnd53_nonneg [of y] show ?thesis by simp
next
  case False
  with assms have px: "0 < x" and py: "0 < y" by simp_all
  have be: "binade x \<le> binade y" using binade_mono [OF px assms(2)] .
  show ?thesis
  proof (cases "binade x = binade y")
    case True
    then have u: "ulp x = ulp y" by (simp add: ulp_def)
    have "x / ulp y \<le> y / ulp y"
      by (intro divide_right_mono assms(2) less_imp_le ulp_pos)
    then have "rne (x / ulp y) \<le> rne (y / ulp y)" by (rule rne_mono)
    then have "of_int (rne (x / ulp y)) * ulp y \<le> of_int (rne (y / ulp y)) * ulp y"
      by (simp add: mult_right_mono)
    then show ?thesis
      by (simp add: rnd53_pos_eq [OF px] rnd53_pos_eq [OF py] u)
  next
    case False
    with be have "binade x + 1 \<le> binade y" by simp
    then have "(2::real) powi (binade x + 1) \<le> 2 powi binade y"
      by (intro power_int_increasing) simp_all
    with rnd53_pos_bounds(2) [OF px] rnd53_pos_bounds(1) [OF py] show ?thesis
      by linarith
  qed
qed

lemma rnd53_dyadic:
  assumes "0 \<le> k" and "k < 2 ^ 53"
  shows "rnd53 (of_int k / 2 ^ 30) = of_int k / 2 ^ 30"
proof (cases "k = 0")
  case False
  with assms have kp: "0 < k" by simp
  define x :: real where "x = of_int k / 2 ^ 30"
  have px: "0 < x" using kp by (simp add: x_def)
  have "real_of_int k < 2 ^ 53"
    using assms(2) by (metis of_int_less_iff of_int_numeral of_int_power)
  then have "x < 2 ^ 53 / 2 ^ 30"
    unfolding x_def by (rule divide_strict_right_mono) simp
  also have "(2::real) ^ 53 / 2 ^ 30 = 2 powi 23" by simp
  finally have xlt: "x < 2 powi 23" .
  have "2 powi binade x < (2::real) powi 23"
    using binade_bounds(1) [OF px] xlt by linarith
  then have "binade x < 23"
    by (rule power_int_le_imp_less_exp [of 2, rotated]) simp_all
  then have e: "0 \<le> 22 - binade x" by simp
  define n where "n = nat (22 - binade x)"
  define p :: real where "p = 2 ^ n"
  have pp: "0 < p" by (simp add: p_def)
  have ulp_eq: "ulp x = 1 / (2 ^ 30 * p)"
  proof -
    have "binade x - 52 = - (30 + int n)" using e by (simp add: n_def)
    then have "ulp x = 2 powi (- (30 + int n))" by (simp add: ulp_def)
    also have "\<dots> = 1 / (2 powi (30 + int n))" by (simp only: power_int_minus_divide)
    also have "(2::real) powi (30 + int n) = 2 ^ 30 * p"
      unfolding p_def by (simp add: power_int_add)
    finally show ?thesis .
  qed
  define c :: real where "c = 2 ^ 30"
  have cp: "0 < c" by (simp add: c_def)
  have xc: "x = of_int k / c" by (simp add: x_def c_def)
  have uc: "ulp x = 1 / (c * p)" by (simp add: ulp_eq c_def)
  have "x / ulp x = x * (c * p)" by (simp add: uc)
  also have "\<dots> = of_int k * p" using cp by (simp add: xc)
  also have "\<dots> = of_int (k * 2 ^ n)" by (simp add: p_def)
  finally have "rne (x / ulp x) = k * 2 ^ n" by (simp only: rne_of_int)
  then have "rnd53 x = of_int k * p * (1 / (c * p))"
    by (simp add: rnd53_pos_eq [OF px] uc p_def)
  also have "\<dots> = of_int k / c" using pp cp by (simp add: field_simps)
  finally show ?thesis by (simp add: x_def c_def)
qed simp

lemma rnd53_of_int: "0 \<le> k \<Longrightarrow> k < 2 ^ 23 \<Longrightarrow> rnd53 (of_int k) = of_int k"
  using rnd53_dyadic [of "k * 2 ^ 30"] by simp

text \<open>Decimal digits: what \<open>padStart\<close> and \<open>parseInt_digits\<close> do on two and three digits.\<close>

lemma digit_char_props: "d < 10 \<Longrightarrow> is_digit (digit_char d) \<and> digit_val (digit_char d) = d"
proof -
  assume "d < 10"
  then have "d \<in> {0, 1, 2, 3, 4, 5, 6, 7, 8, 9}" by auto
  then show ?thesis
    by (auto simp: digit_char_def is_digit_def digit_val_def)
qed

lemma replicate_2: "replicate 2 c = [c, c]"
  by (simp add: numeral_2_eq_2)

lemma replicate_3: "replicate 3 c = [c, c, c]"
  by (simp add: numeral_3_eq_3)

lemma nts1: "n < 10 \<Longrightarrow> nat_to_string n = [digit_char n]"
  by (simp add: nat_to_string.simps [of n])

lemma nts2: "10 \<le> n \<Longrightarrow> n < 100 \<Longrightarrow>
  nat_to_string n = [digit_char (n div 10), digit_char (n mod 10)]"
  by (simp add: nat_to_string.simps [of n] nts1)

lemma nts3: "100 \<le> n \<Longrightarrow> n < 1000 \<Longrightarrow>
  nat_to_string n = [digit_char (n div 100), digit_char (n div 10 mod 10), digit_char (n mod 10)]"
proof -
  assume a: "100 \<le> n" "n < 1000"
  then have "10 \<le> n div 10" "n div 10 < 100" by simp_all
  from nts2 [OF this] a show ?thesis
    by (simp add: nat_to_string.simps [of n] div_mult2_eq [symmetric])
qed

lemma digit_char_0: "digit_char 0 = CHR ''0''"
  by (simp add: digit_char_def)

lemma pad2: "n < 100 \<Longrightarrow>
  padStart 2 CHR ''0'' (nat_to_string n) = [digit_char (n div 10), digit_char (n mod 10)]"
  by (cases "n < 10") (simp_all add: padStart_def nts1 nts2 digit_char_0)

lemma pad3: "n < 1000 \<Longrightarrow>
  padStart 3 CHR ''0'' (nat_to_string n) =
    [digit_char (n div 100), digit_char (n div 10 mod 10), digit_char (n mod 10)]"
proof -
  assume a: "n < 1000"
  consider "n < 10" | "10 \<le> n" "n < 100" | "100 \<le> n" by linarith
  then show ?thesis
  proof cases
    case 1
    then show ?thesis by (simp add: padStart_def nts1 digit_char_0 numeral_2_eq_2)
  next
    case 2
    then show ?thesis by (simp add: padStart_def nts2 digit_char_0)
  next
    case 3
    with a show ?thesis by (simp add: padStart_def nts3)
  qed
qed

lemma is_digit_not_sep: "is_digit c \<Longrightarrow> c \<noteq> CHR '',''"
  by (auto simp: is_digit_def)

lemma replace_first_sep:
  assumes "is_digit a" "is_digit b" "is_digit c" "is_digit d" "is_digit e" "is_digit f"
    "is_digit g" "is_digit h" "is_digit i"
    and "sep = CHR '','' \<or> sep = CHR ''.''"
  shows "replace_first CHR '','' CHR ''.''
      (a # b # CHR '':'' # c # d # CHR '':'' # e # f # sep # [g, h, i])
    = a # b # CHR '':'' # c # d # CHR '':'' # e # f # CHR ''.'' # [g, h, i]"
  using assms by (auto simp: is_digit_not_sep)

lemma parseInt_2: "parseInt_digits [digit_char (n div 10), digit_char (n mod 10)] = n"
  if "n < 100" for n
proof -
  from that have "n div 10 < 10" "n mod 10 < 10" by simp_all
  then show ?thesis
    by (simp add: parseInt_digits_def digit_char_props)
qed

lemma digits3: "10 * (10 * (n div 100) + n div 10 mod 10) + n mod 10 = (n::nat)"
proof -
  have "n mod (10 * 10) = 10 * (n div 10 mod 10) + n mod 10" by (rule mod_mult2_eq)
  then have a: "10 * (n div 10 mod 10) + n mod 10 = n mod 100" by simp
  have lin: "10 * (10 * A + B) + C = 100 * A + (10 * B + C)" for A B C :: nat by simp
  have "10 * (10 * (n div 100) + n div 10 mod 10) + n mod 10
      = 100 * (n div 100) + (10 * (n div 10 mod 10) + n mod 10)" by (rule lin)
  also have "\<dots> = 100 * (n div 100) + n mod 100" by (simp only: a)
  also have "\<dots> = n" by (rule mult_div_mod_eq)
  finally show ?thesis .
qed

lemma parseInt_3:
  "parseInt_digits [digit_char (n div 100), digit_char (n div 10 mod 10), digit_char (n mod 10)] = n"
  if "n < 1000" for n
proof -
  from that have "n div 100 < 10" "n div 10 mod 10 < 10" "n mod 10 < 10" by simp_all
  then have "parseInt_digits [digit_char (n div 100), digit_char (n div 10 mod 10), digit_char (n mod 10)]
      = 10 * (10 * (n div 100) + n div 10 mod 10) + n mod 10"
    by (simp add: parseInt_digits_def digit_char_props)
  then show ?thesis by (simp only: digits3)
qed

lemma parseTimestamp_ts_string:
  assumes "h < 100" "m < 100" "s < 100" "ms < 1000" "sep = CHR '','' \<or> sep = CHR ''.''"
  shows "parseTimestamp (ts_string h m s sep ms) =
         fadd (fadd (fadd (fmul (real h) 3600) (fmul (real m) 60)) (real s)) (fdiv (real ms) 1000)"
proof -
  have d: "is_digit (digit_char (h div 10))" "is_digit (digit_char (h mod 10))"
    "is_digit (digit_char (m div 10))" "is_digit (digit_char (m mod 10))"
    "is_digit (digit_char (s div 10))" "is_digit (digit_char (s mod 10))"
    "is_digit (digit_char (ms div 100))" "is_digit (digit_char (ms div 10 mod 10))"
    "is_digit (digit_char (ms mod 10))"
    using assms by (simp_all add: digit_char_props)
  have str: "ts_string h m s sep ms =
      digit_char (h div 10) # digit_char (h mod 10) # CHR '':'' #
      digit_char (m div 10) # digit_char (m mod 10) # CHR '':'' #
      digit_char (s div 10) # digit_char (s mod 10) # sep #
      [digit_char (ms div 100), digit_char (ms div 10 mod 10), digit_char (ms mod 10)]"
    using assms by (simp add: ts_string_def pad2 pad3)
  show ?thesis
    unfolding parseTimestamp_def str replace_first_sep [OF d assms(5)]
    using d assms(1-4) by (simp add: parseInt_2 parseInt_3)
qed

text \<open>
  The value that \<open>parseTimestamp\<close> returns for hours \<open>h\<close>, minutes \<open>m\<close>, seconds \<open>s\<close> and
  milliseconds \<open>ms\<close> is within \<open>2\<^sup>-\<^sup>2\<^sup>9\<close> of \<open>3600 h + 60 m + s + ms / 1000\<close> and not below
  the whole seconds. From such a value \<open>formatTimestamp\<close> recovers the hours, minutes
  and seconds, and a millisecond field of \<open>ms\<close> or \<open>ms - 1\<close>.
\<close>

lemma rnd53_near:
  assumes "0 \<le> x" and "x \<le> 2 ^ 22"
  shows "x - 1 / 2 ^ 30 \<le> rnd53 x" and "rnd53 x \<le> x + 1 / 2 ^ 30"
proof -
  define k where "k = \<lfloor>x * 2 ^ 30\<rfloor>"
  have k0: "0 \<le> k" using assms(1) by (simp add: k_def)
  have kle: "of_int k \<le> x * 2 ^ 30" and klt: "x * 2 ^ 30 < of_int k + 1"
    by (simp_all add: k_def)
  have "x * 2 ^ 30 \<le> 2 ^ 22 * 2 ^ 30" using assms(2) by (simp add: mult_right_mono)
  with kle have "real_of_int k \<le> 2 ^ 52" by simp
  then have "k \<le> 2 ^ 52" by (metis of_int_le_iff of_int_numeral of_int_power)
  then have k1: "k < 2 ^ 53" "k + 1 < 2 ^ 53" by simp_all
  have lo: "of_int k / 2 ^ 30 \<le> x" using kle by (simp add: field_simps)
  have hi: "x \<le> of_int (k + 1) / 2 ^ 30" using klt by (simp add: field_simps)
  have "rnd53 (of_int k / 2 ^ 30) \<le> rnd53 x"
    using k0 lo by (intro rnd53_mono) simp_all
  then have a: "of_int k / 2 ^ 30 \<le> rnd53 x"
    by (simp only: rnd53_dyadic [OF k0 k1(1)])
  have "rnd53 x \<le> rnd53 (of_int (k + 1) / 2 ^ 30)"
    using assms(1) hi by (intro rnd53_mono)
  then have b: "rnd53 x \<le> of_int (k + 1) / 2 ^ 30"
    using rnd53_dyadic [of "k + 1"] k0 k1(2) by simp
  from a klt show "x - 1 / 2 ^ 30 \<le> rnd53 x" by (simp add: field_simps)
  from b kle show "rnd53 x \<le> x + 1 / 2 ^ 30" by (simp add: field_simps)
qed

lemma rnd53_nat: "n < 8388608 \<Longrightarrow> rnd53 (real n) = real n"
  using rnd53_of_int [of "int n"] by simp

lemma rnd53_ge_nat: "n < 8388608 \<Longrightarrow> real n \<le> x \<Longrightarrow> real n \<le> rnd53 x"
  using rnd53_mono [of "real n" x] by (simp add: rnd53_nat)

lemma parse_value:
  assumes "h < 100" "m < 100" "s < 100" "ms < 1000"
  defines "N \<equiv> real (h * 3600 + m * 60 + s)"
  defines "T \<equiv> fadd (fadd (fadd (fmul (real h) 3600) (fmul (real m) 60)) (real s)) (fdiv (real ms) 1000)"
  shows "N \<le> T" and "N + real ms / 1000 - 2 / 2 ^ 30 \<le> T"
    and "T \<le> N + real ms / 1000 + 2 / 2 ^ 30" and "ms = 0 \<Longrightarrow> T = N"
proof -
  have a: "fmul (real h) 3600 = real (h * 3600)"
    using assms(1) rnd53_nat [of "h * 3600"] by (simp add: fmul_def)
  have b: "fmul (real m) 60 = real (m * 60)"
    using assms(2) rnd53_nat [of "m * 60"] by (simp add: fmul_def)
  have c: "fadd (real (h * 3600)) (real (m * 60)) = real (h * 3600 + m * 60)"
    using assms(1,2) rnd53_nat [of "h * 3600 + m * 60"] by (simp add: fadd_def)
  have d: "fadd (real (h * 3600 + m * 60)) (real s) = N"
    using assms(1,2,3) rnd53_nat [of "h * 3600 + m * 60 + s"] by (simp add: fadd_def N_def)
  define f where "f = rnd53 (real ms / 1000)"
  have "T = fadd N (fdiv (real ms) 1000)"
    by (simp only: T_def a b c d)
  then have T: "T = rnd53 (N + f)"
    by (simp only: f_def fadd_def fdiv_def)
  have f0: "0 \<le> f" by (simp add: f_def rnd53_nonneg)
  have f1: "real ms / 1000 - 1 / 2 ^ 30 \<le> f" "f \<le> real ms / 1000 + 1 / 2 ^ 30"
    using rnd53_near [of "real ms / 1000"] assms(4) by (simp_all add: f_def)
  have Nb: "0 \<le> N" "N \<le> 366039" using assms(1,2,3) by (simp_all add: N_def)
  have nf: "0 \<le> N + f" "N + f \<le> 2 ^ 22" using Nb f0 f1(2) assms(4) by simp_all
  have Nn: "h * 3600 + m * 60 + s < 8388608" using assms(1,2,3) by simp
  show "N \<le> T"
    unfolding T N_def using f0 by (intro rnd53_ge_nat [OF Nn]) (simp add: N_def)
  from rnd53_near [OF nf] f1
  show "N + real ms / 1000 - 2 / 2 ^ 30 \<le> T" and "T \<le> N + real ms / 1000 + 2 / 2 ^ 30"
    unfolding T by linarith+
  show "T = N" if "ms = 0"
    using that rnd53_nat [OF Nn] by (simp add: T f_def N_def)
qed

lemma trunc_nonneg: "0 \<le> q \<Longrightarrow> trunc q = \<lfloor>q\<rfloor>"
  by (simp add: trunc_def)

lemma format_fields:
  fixes T :: real
  assumes "h < 100" "m < 60" "s < 60" "ms < 1000"
  defines "N \<equiv> real (h * 3600 + m * 60 + s)"
  assumes lo: "N \<le> T" and lo': "N + real ms / 1000 - 2 / 2 ^ 30 \<le> T"
    and hi: "T \<le> N + real ms / 1000 + 2 / 2 ^ 30"
  shows "\<lfloor>fdiv T 3600\<rfloor> = int h"
    and "\<lfloor>fdiv (fmod T 3600) 60\<rfloor> = int m"
    and "\<lfloor>fmod T 60\<rfloor> = int s"
    and "\<lfloor>fmul (fmod T 1) 1000\<rfloor> = int ms \<or> \<lfloor>fmul (fmod T 1) 1000\<rfloor> = int ms - 1"
    and "0 \<le> \<lfloor>fmul (fmod T 1) 1000\<rfloor>"
proof -
  define H M S MS where "H = real h" and "M = real m" and "S = real s" and "MS = real ms"
  have N: "N = 3600 * H + 60 * M + S" by (simp add: N_def H_def M_def S_def)
  have bH: "0 \<le> H" "H \<le> 99" and bM: "0 \<le> M" "M \<le> 59" and bS: "0 \<le> S" "S \<le> 59"
    and bMS: "0 \<le> MS" "MS \<le> 999"
    using assms(1-4) by (simp_all add: H_def M_def S_def MS_def)
  have eps: "(2::real) / 2 ^ 30 \<le> 1 / 500000000" "(1::real) / 2 ^ 30 \<le> 1 / 1000000000" by simp_all
  have hi1: "T \<le> N + 9991 / 10000"
    using hi bMS eps unfolding MS_def [symmetric] by linarith
  have T0: "0 \<le> T" using lo N bH bM bS by linarith
  \<comment> \<open>hours\<close>
  have q0: "0 \<le> T / 3600" "T / 3600 \<le> 2 ^ 22" using T0 hi1 N bH bM bS by simp_all
  have "H \<le> T / 3600" using lo N bM bS by simp
  then have h1: "H \<le> rnd53 (T / 3600)"
    unfolding H_def using assms(1) by (intro rnd53_ge_nat) simp_all
  have "T / 3600 \<le> H + 1 - 9 / 36000000" using hi1 N bM bS by simp
  with rnd53_near(2) [OF q0] eps have h2: "rnd53 (T / 3600) < H + 1" by linarith
  show fh: "\<lfloor>fdiv T 3600\<rfloor> = int h"
    using h1 h2 by (simp add: fdiv_def floor_eq_iff H_def)
  \<comment> \<open>remainder modulo an hour\<close>
  have "\<lfloor>T / 3600\<rfloor> = int h"
    using \<open>H \<le> T / 3600\<close> \<open>T / 3600 \<le> H + 1 - 9 / 36000000\<close>
    by (simp add: floor_eq_iff H_def)
  then have R: "fmod T 3600 = T - 3600 * H"
    using q0(1) by (simp add: fmod_def trunc_nonneg H_def)
  have r0: "0 \<le> (T - 3600 * H) / 60" "(T - 3600 * H) / 60 \<le> 2 ^ 22"
    using lo hi1 N bM bS by simp_all
  have "M \<le> (T - 3600 * H) / 60" using lo N bS by simp
  then have m1: "M \<le> rnd53 ((T - 3600 * H) / 60)"
    unfolding M_def using assms(2) by (intro rnd53_ge_nat) simp_all
  have "(T - 3600 * H) / 60 \<le> M + 1 - 9 / 600000" using hi1 N bS by simp
  with rnd53_near(2) [OF r0] eps have m2: "rnd53 ((T - 3600 * H) / 60) < M + 1" by linarith
  show "\<lfloor>fdiv (fmod T 3600) 60\<rfloor> = int m"
    using m1 m2 by (simp add: fdiv_def R floor_eq_iff M_def)
  \<comment> \<open>seconds\<close>
  have "\<lfloor>T / 60\<rfloor> = int (60 * h + m)"
    using lo hi1 N bS by (simp add: floor_eq_iff H_def M_def)
  then have R60: "fmod T 60 = T - 60 * (60 * H + M)"
    using T0 by (simp add: fmod_def trunc_nonneg H_def M_def)
  show "\<lfloor>fmod T 60\<rfloor> = int s"
    using lo hi1 N by (simp add: R60 floor_eq_iff S_def)
  \<comment> \<open>milliseconds\<close>
  have "\<lfloor>T\<rfloor> = int (h * 3600 + m * 60 + s)"
    using lo hi1 by (simp add: floor_eq_iff N_def)
  then have R1: "fmod T 1 = T - N"
    using T0 by (simp add: fmod_def trunc_nonneg N_def)
  define D where "D = (T - N) * 1000"
  have D: "0 \<le> D" "D \<le> 2 ^ 22" "MS - 2000 / 2 ^ 30 \<le> D" "D \<le> MS + 2000 / 2 ^ 30"
    using lo hi1 lo' hi by (simp_all add: D_def MS_def field_simps)
  have g0: "0 \<le> rnd53 D" using D(1) by (rule rnd53_nonneg)
  have "(2000::real) / 2 ^ 30 \<le> 1 / 500000" by simp
  with rnd53_near [OF D(1,2)] D(3,4) eps
  have g: "MS - 1 \<le> rnd53 D" "rnd53 D < MS + 1" by linarith+
  have fm: "fmul (fmod T 1) 1000 = rnd53 D" by (simp add: fmul_def R1 D_def)
  show "0 \<le> \<lfloor>fmul (fmod T 1) 1000\<rfloor>" using g0 by (simp add: fm)
  show "\<lfloor>fmul (fmod T 1) 1000\<rfloor> = int ms \<or> \<lfloor>fmul (fmod T 1) 1000\<rfloor> = int ms - 1"
  proof (cases "MS \<le> rnd53 D")
    case True
    with g(2) have "\<lfloor>rnd53 D\<rfloor> = int ms" by (simp add: floor_eq_iff MS_def)
    then show ?thesis by (simp add: fm)
  next
    case False
    with g(1) have "\<lfloor>rnd53 D\<rfloor> = int ms - 1" by (simp add: floor_eq_iff MS_def)
    then show ?thesis by (simp add: fm)
  qed
qed

section \<open>Timestamp round trip\<close>

text \<open>
  A string that \<open>match_timestamp\<close> matches from its first to its last character is the
  \<open>ts_string\<close> of the numbers its four groups denote.
\<close>

lemma is_digit_char: "is_digit c \<Longrightarrow> digit_val c < 10 \<and> digit_char (digit_val c) = c"
  by (auto simp: is_digit_def digit_val_def digit_char_def)

lemma two_digits:
  assumes "is_digit a" "is_digit b"
  shows "parseInt_digits [a, b] < 100"
    and "padStart 2 CHR ''0'' (nat_to_string (parseInt_digits [a, b])) = [a, b]"
proof -
  define n where "n = parseInt_digits [a, b]"
  have n: "n = 10 * digit_val a + digit_val b" by (simp add: n_def parseInt_digits_def)
  have d: "digit_val a < 10" "digit_val b < 10" using assms by (simp_all add: is_digit_char)
  then show lt: "parseInt_digits [a, b] < 100" using n by (simp add: n_def)
  have "n div 10 = digit_val a" "n mod 10 = digit_val b" using d n by simp_all
  with pad2 [of n] lt assms show "padStart 2 CHR ''0'' (nat_to_string (parseInt_digits [a, b])) = [a, b]"
    by (simp add: n_def is_digit_char)
qed

lemma div_mod_10: "c < 10 \<Longrightarrow> (10 * q + c) div 10 = q \<and> (10 * q + c) mod 10 = c" for q c :: nat
  by simp

lemma three_digits:
  assumes "is_digit a" "is_digit b" "is_digit c"
  shows "parseInt_digits [a, b, c] < 1000"
    and "padStart 3 CHR ''0'' (nat_to_string (parseInt_digits [a, b, c])) = [a, b, c]"
proof -
  define n where "n = parseInt_digits [a, b, c]"
  define q where "q = 10 * digit_val a + digit_val b"
  have n: "n = 10 * q + digit_val c"
    by (simp add: n_def q_def parseInt_digits_def)
  have d: "digit_val a < 10" "digit_val b < 10" "digit_val c < 10"
    using assms by (simp_all add: is_digit_char)
  have q: "q < 100" using d by (simp add: q_def)
  then show lt: "parseInt_digits [a, b, c] < 1000" using n d by (simp add: n_def)
  have n10: "n div 10 = q" and c: "n mod 10 = digit_val c"
    unfolding n using div_mod_10 [OF d(3), of q] by simp_all
  have "q div 10 = digit_val a" and b: "q mod 10 = digit_val b"
    unfolding q_def using div_mod_10 [OF d(2), of "digit_val a"] by simp_all
  then have a: "n div 100 = digit_val a"
    using n10 by (simp add: div_mult2_eq [of n 10 10, simplified])
  from pad3 [of n] lt assms a b c n10
  show "padStart 3 CHR ''0'' (nat_to_string (parseInt_digits [a, b, c])) = [a, b, c]"
    by (simp add: n_def is_digit_char)
qed

lemma match_timestamp_shape:
  assumes "match_timestamp sep s = Some ((hh, mm, ss, mmm), [])"
  shows "s = ts_string (parseInt_digits hh) (parseInt_digits mm) (parseInt_digits ss) sep
               (parseInt_digits mmm)"
    and "parseInt_digits hh < 100" and "parseInt_digits mm < 100"
    and "parseInt_digits ss < 100" and "parseInt_digits mmm < 1000"
    and "padStart 2 CHR ''0'' (nat_to_string (parseInt_digits hh)) = hh"
    and "padStart 2 CHR ''0'' (nat_to_string (parseInt_digits mm)) = mm"
    and "padStart 2 CHR ''0'' (nat_to_string (parseInt_digits ss)) = ss"
proof -
  from assms obtain a b c d e f g h i where
    s: "s = [a, b, CHR '':'', c, d, CHR '':'', e, f, sep, g, h, i]"
    and dg: "is_digit a" "is_digit b" "is_digit c" "is_digit d" "is_digit e" "is_digit f"
      "is_digit g" "is_digit h" "is_digit i"
    and grp: "hh = [a, b]" "mm = [c, d]" "ss = [e, f]" "mmm = [g, h, i]"
    by (cases "(sep, s)" rule: match_timestamp.cases) (auto split: if_splits)
  show "parseInt_digits hh < 100" "parseInt_digits mm < 100" "parseInt_digits ss < 100"
    "parseInt_digits mmm < 1000"
    using dg by (simp_all add: grp two_digits three_digits)
  show "padStart 2 CHR ''0'' (nat_to_string (parseInt_digits hh)) = hh"
    "padStart 2 CHR ''0'' (nat_to_string (parseInt_digits mm)) = mm"
    "padStart 2 CHR ''0'' (nat_to_string (parseInt_digits ss)) = ss"
    using dg by (simp_all add: grp two_digits)
  show "s = ts_string (parseInt_digits hh) (parseInt_digits mm) (parseInt_digits ss) sep
               (parseInt_digits mmm)"
    using dg by (simp add: ts_string_def grp two_digits three_digits s)
qed

text \<open>Rounding at given numbers, by the definition.\<close>

lemma rnd53_dyadic_gen:
  assumes "0 \<le> k" and "k < 2 ^ 53"
  shows "rnd53 (of_int k / 2 ^ j) = of_int k / 2 ^ j"
proof (cases "k = 0")
  case False
  with assms have kp: "0 < k" by simp
  define c :: real where "c = 2 ^ j"
  have cp: "0 < c" by (simp add: c_def)
  define x :: real where "x = of_int k / c"
  have px: "0 < x" using kp cp by (simp add: x_def)
  have "real_of_int k < 2 ^ 53"
    using assms(2) by (metis of_int_less_iff of_int_numeral of_int_power)
  then have "x < 2 ^ 53 / c"
    unfolding x_def using cp by (simp add: divide_strict_right_mono)
  also have "2 ^ 53 / c = 2 powi (53 - int j)"
    by (simp add: c_def power_int_diff)
  finally have xlt: "x < 2 powi (53 - int j)" .
  have "2 powi binade x < (2::real) powi (53 - int j)"
    using binade_bounds(1) [OF px] xlt by linarith
  then have "binade x < 53 - int j"
    by (smt (verit) power_int_increasing)
  then have e: "0 \<le> 52 - int j - binade x" by simp
  define n where "n = nat (52 - int j - binade x)"
  define p :: real where "p = 2 ^ n"
  have pp: "0 < p" by (simp add: p_def)
  have uc: "ulp x = 1 / (c * p)"
  proof -
    have "binade x - 52 = - (int j + int n)" using e by (simp add: n_def)
    then have "ulp x = 2 powi (- (int j + int n))" by (simp add: ulp_def)
    also have "\<dots> = 1 / (2 powi (int j + int n))" by (simp only: power_int_minus_divide)
    also have "(2::real) powi (int j + int n) = c * p"
      unfolding p_def c_def by (simp add: power_int_add)
    finally show ?thesis .
  qed
  have "x / ulp x = x * (c * p)" by (simp add: uc)
  also have "\<dots> = of_int k * p" using cp by (simp add: x_def)
  also have "\<dots> = of_int (k * 2 ^ n)" by (simp add: p_def)
  finally have "rne (x / ulp x) = k * 2 ^ n" by (simp only: rne_of_int)
  then have "rnd53 x = of_int k * p * (1 / (c * p))"
    by (simp add: rnd53_pos_eq [OF px] uc p_def)
  also have "\<dots> = of_int k / c" using pp cp by (simp add: field_simps)
  finally show ?thesis by (simp add: x_def c_def)
qed simp

lemma rnd53_eval:
  assumes "0 < x" and "2 powi e \<le> x" and "x < 2 powi (e + 1)"
  shows "rnd53 x = of_int (rne (x / 2 powi (e - 52))) * 2 powi (e - 52)"
  using binade_eqI [OF assms] by (simp add: rnd53_pos_eq [OF assms(1)] ulp_def)

lemma rnd_milli: "rnd53 (1 / 1000) = 4611686018427388 / 2 ^ 62"
proof -
  have "rnd53 (1 / 1000) = of_int (rne ((1 / 1000) / 2 powi (- 10 - 52))) * 2 powi (- 10 - 52)"
    by (rule rnd53_eval) simp_all
  also have "(1 / 1000) / 2 powi (- 10 - 52) = (576460752303423488 / 125 :: real)"
    by simp
  also have "rne (576460752303423488 / 125) = 4611686018427388"
    by (simp add: rne_def Let_def)
  finally show ?thesis by simp
qed

text \<open>
  The millisecond field can come back one less: 1.001 s is stored as the binary64
  value just below it, and the floor of its fractional part times 1000 is 0.
\<close>

lemma rnd_one_milli: "rnd53 (1 + 4611686018427388 / 2 ^ 62) = 4508103226997866 / 2 ^ 52"
proof -
  let ?x = "1 + 4611686018427388 / 2 ^ 62 :: real"
  have "rnd53 ?x = of_int (rne (?x / 2 powi (0 - 52))) * 2 powi (0 - 52)"
    by (rule rnd53_eval) simp_all
  also have "?x / 2 powi (0 - 52) = (1154074426111453823 / 256 :: real)"
    by simp
  also have "rne (1154074426111453823 / 256) = 4508103226997866"
    by (simp add: rne_def Let_def)
  finally show ?thesis by simp
qed

lemma parse_1001:
  assumes "sep = CHR '','' \<or> sep = CHR ''.''"
  shows "parseTimestamp (ts_string 0 0 1 sep 1) = 4508103226997866 / 2 ^ 52"
proof -
  have "parseTimestamp (ts_string 0 0 1 sep 1) =
      fadd (fadd (fadd (fmul (real 0) 3600) (fmul (real 0) 60)) (real 1)) (fdiv (real 1) 1000)"
    using assms by (intro parseTimestamp_ts_string) simp_all
  also have "\<dots> = rnd53 (rnd53 1 + rnd53 (1 / 1000))"
    by (simp add: fadd_def fmul_def fdiv_def)
  also have "rnd53 1 = 1" using rnd53_nat [of 1] by simp
  finally show ?thesis
    by (simp only: rnd_milli rnd_one_milli)
qed

lemma ms_1001:
  "\<lfloor>fmul (fmod (4508103226997866 / 2 ^ 52) 1) 1000\<rfloor> = 0"
proof -
  have "fmod (4508103226997866 / 2 ^ 52) 1 = (4508103226997866 / 2 ^ 52 - 1 :: real)"
    by (simp add: fmod_def trunc_def)
  also have "\<dots> * 1000 = of_int 281474976710625 / 2 ^ 48"
    by simp
  finally have "fmul (fmod (4508103226997866 / 2 ^ 52) 1) 1000
      = rnd53 (of_int 281474976710625 / 2 ^ 48)"
    by (simp only: fmul_def)
  also have "\<dots> = of_int 281474976710625 / 2 ^ 48"
    by (rule rnd53_dyadic_gen) simp_all
  finally have eq: "fmul (fmod (4508103226997866 / 2 ^ 52) 1) 1000
      = of_int 281474976710625 / 2 ^ 48" .
  show ?thesis by (subst eq) simp
qed

lemma format_1001:
  "formatTimestamp (4508103226997866 / 2 ^ 52) format
     = ts_string 0 0 1 (if format = SrtTs then CHR '','' else CHR ''.'') 0"
proof -
  define T :: real where "T = 4508103226997866 / 2 ^ 52"
  have b: "real (0 * 3600 + 0 * 60 + 1) \<le> T"
    "real (0 * 3600 + 0 * 60 + 1) + real 1 / 1000 - 2 / 2 ^ 30 \<le> T"
    "T \<le> real (0 * 3600 + 0 * 60 + 1) + real 1 / 1000 + 2 / 2 ^ 30"
    by (simp_all add: T_def)
  have lt: "(0::nat) < 100" "(0::nat) < 60" "(1::nat) < 60" "(1::nat) < 1000" by simp_all
  note ff = format_fields [OF lt b]
  have ms: "\<lfloor>fmul (fmod T 1) 1000\<rfloor> = 0" unfolding T_def by (rule ms_1001)
  have "formatTimestamp T format
      = ts_string 0 0 1 (if format = SrtTs then CHR '','' else CHR ''.'') 0"
    using ff(1-3) ms
    by (simp add: formatTimestamp_def Let_def int_to_string_def ts_string_def)
  then show ?thesis by (simp only: T_def)
qed

lemma ts_strings:
  "ts_string 0 0 1 CHR '','' 1 = ''00:00:01,001''"
  "ts_string 0 0 1 CHR ''.'' 1 = ''00:00:01.001''"
  "ts_string 0 0 1 CHR '','' 0 = ''00:00:01,000''"
  "ts_string 0 0 1 CHR ''.'' 0 = ''00:00:01.000''"
  by (simp_all add: ts_string_def pad2 pad3 digit_char_def)

text \<open>
  C9. The timestamp \<^verbatim>\<open>00:00:01,001\<close> does not come back from the round trip: parsed
  and formatted again, with the separator it was written with, it is
  \<^verbatim>\<open>00:00:01,000\<close>, a millisecond less. The same holds for \<^verbatim>\<open>00:00:01.001\<close> and the
  \<^verbatim>\<open>'vtt'\<close> format. \<open>parseTimestamp\<close> returns the binary64 value nearest to 1.001, which
  is below 1.001, and \<open>formatTimestamp\<close> takes the floor of its fractional part times
  1000, which is 0.999999999999889 rounded to binary64, instead of rounding to the
  nearest millisecond.
\<close>

theorem timestamp_round_trip_loses_millisecond:
  "formatTimestamp (parseTimestamp ''00:00:01,001'') SrtTs = ''00:00:01,000'' \<and>
   formatTimestamp (parseTimestamp ''00:00:01.001'') VttTs = ''00:00:01.000'' \<and>
   ''00:00:01,000'' \<noteq> ''00:00:01,001'' \<and> ''00:00:01.000'' \<noteq> ''00:00:01.001''"
proof -
  have p1: "parseTimestamp (ts_string 0 0 1 CHR '','' 1) = 4508103226997866 / 2 ^ 52"
    by (rule parse_1001) simp
  have p2: "parseTimestamp (ts_string 0 0 1 CHR ''.'' 1) = 4508103226997866 / 2 ^ 52"
    by (rule parse_1001) simp
  have "formatTimestamp (parseTimestamp (ts_string 0 0 1 CHR '','' 1)) SrtTs
      = ts_string 0 0 1 CHR '','' 0"
    unfolding p1 format_1001 by simp
  then have a: "formatTimestamp (parseTimestamp ''00:00:01,001'') SrtTs = ''00:00:01,000''"
    by (simp only: ts_strings)
  have "formatTimestamp (parseTimestamp (ts_string 0 0 1 CHR ''.'' 1)) VttTs
      = ts_string 0 0 1 CHR ''.'' 0"
    unfolding p2 format_1001 by simp
  then have b: "formatTimestamp (parseTimestamp ''00:00:01.001'') VttTs = ''00:00:01.000''"
    by (simp only: ts_strings)
  from a b show ?thesis by simp
qed

section \<open>Shadowing pause\<close>

text \<open>
  Rounding commutes with negation. The literals of the pause computation and the
  products of the examples, rounded.
\<close>

lemma rnd53_minus: "rnd53 (- x) = - rnd53 x"
  by (simp add: rnd53_def ulp_def binade_def)

lemma rnd53_abs: "\<bar>rnd53 x\<bar> = rnd53 \<bar>x\<bar>"
proof (cases "0 \<le> x")
  case True
  then show ?thesis using rnd53_nonneg [of x] by simp
next
  case False
  then have "0 \<le> - x" by simp
  from rnd53_nonneg [OF this] False show ?thesis by (simp add: rnd53_minus)
qed

lemma lit_1_1: "rnd53 (11 / 10) = 4953959590107546 / 2 ^ 52"
proof -
  have "rnd53 (11 / 10) = of_int (rne ((11 / 10) / 2 powi (0 - 52))) * 2 powi (0 - 52)"
    by (rule rnd53_eval) simp_all
  also have "(11 / 10) / 2 powi (0 - 52) = (24769797950537728 / 5 :: real)"
    by simp
  also have "rne (24769797950537728 / 5) = 4953959590107546"
    by (simp add: rne_def Let_def)
  finally show ?thesis by simp
qed

lemma lit_0_01: "rnd53 (1 / 100) = 5764607523034235 / 2 ^ 59"
proof -
  have "rnd53 (1 / 100) = of_int (rne ((1 / 100) / 2 powi (- 7 - 52))) * 2 powi (- 7 - 52)"
    by (rule rnd53_eval) simp_all
  also have "(1 / 100) / 2 powi (- 7 - 52) = (144115188075855872 / 25 :: real)"
    by simp
  also have "rne (144115188075855872 / 25) = 5764607523034235"
    by (simp add: rne_def Let_def)
  finally show ?thesis by simp
qed

lemma lit_0_8: "rnd53 (8 / 10) = 7205759403792794 / 2 ^ 53"
proof -
  have "rnd53 (8 / 10) = of_int (rne ((8 / 10) / 2 powi (- 1 - 52))) * 2 powi (- 1 - 52)"
    by (rule rnd53_eval) simp_all
  also have "(8 / 10) / 2 powi (- 1 - 52) = (36028797018963968 / 5 :: real)"
    by simp
  also have "rne (36028797018963968 / 5) = 7205759403792794"
    by (simp add: rne_def Let_def)
  finally show ?thesis by simp
qed

lemma lit_1_105: "rnd53 (1105 / 1000) = 4976477588244398 / 2 ^ 52"
proof -
  have "rnd53 (1105 / 1000) = of_int (rne ((1105 / 1000) / 2 powi (0 - 52))) * 2 powi (0 - 52)"
    by (rule rnd53_eval) simp_all
  also have "(1105 / 1000) / 2 powi (0 - 52) = (124411939706109952 / 25 :: real)"
    by simp
  also have "rne (124411939706109952 / 25) = 4976477588244398"
    by (simp add: rne_def Let_def)
  finally show ?thesis by simp
qed

lemma lit_1_09: "rnd53 (109 / 100) = 4908923593833841 / 2 ^ 52"
proof -
  have "rnd53 (109 / 100) = of_int (rne ((109 / 100) / 2 powi (0 - 52))) * 2 powi (0 - 52)"
    by (rule rnd53_eval) simp_all
  also have "(109 / 100) / 2 powi (0 - 52) = (122723089845846016 / 25 :: real)"
    by simp
  also have "rne (122723089845846016 / 25) = 4908923593833841"
    by (simp add: rne_def Let_def)
  finally show ?thesis by simp
qed

lemma lit_6_1: "rnd53 (61 / 10) = 6867989431740006 / 2 ^ 50"
proof -
  have "rnd53 (61 / 10) = of_int (rne ((61 / 10) / 2 powi (2 - 52))) * 2 powi (2 - 52)"
    by (rule rnd53_eval) simp_all
  also have "(61 / 10) / 2 powi (2 - 52) = (34339947158700032 / 5 :: real)"
    by simp
  also have "rne (34339947158700032 / 5) = 6867989431740006"
    by (simp add: rne_def Let_def)
  finally show ?thesis by simp
qed

lemma mul_2000_1_1: "rnd53 (2000 * (4953959590107546 / 2 ^ 52)) = 2200"
proof -
  have "rnd53 (2000 * (4953959590107546 / 2 ^ 52)) = of_int (rne ((2000 * (4953959590107546 / 2 ^ 52)) / 2 powi (11 - 52))) * 2 powi (11 - 52)"
    by (rule rnd53_eval) simp_all
  also have "(2000 * (4953959590107546 / 2 ^ 52)) / 2 powi (11 - 52) = (309622474381721625 / 64 :: real)"
    by simp
  also have "rne (309622474381721625 / 64) = 4837851162214400"
    by (simp add: rne_def Let_def)
  finally show ?thesis by simp
qed

lemma mul_1000_1_1: "rnd53 (1000 * (4953959590107546 / 2 ^ 52)) = 1100"
proof -
  have "rnd53 (1000 * (4953959590107546 / 2 ^ 52)) = of_int (rne ((1000 * (4953959590107546 / 2 ^ 52)) / 2 powi (10 - 52))) * 2 powi (10 - 52)"
    by (rule rnd53_eval) simp_all
  also have "(1000 * (4953959590107546 / 2 ^ 52)) / 2 powi (10 - 52) = (309622474381721625 / 64 :: real)"
    by simp
  also have "rne (309622474381721625 / 64) = 4837851162214400"
    by (simp add: rne_def Let_def)
  finally show ?thesis by simp
qed

lemma mul_6_1_1000: "rnd53 (6867989431740006 / 2 ^ 50 * 1000) = 6100"
proof -
  have "rnd53 (6867989431740006 / 2 ^ 50 * 1000) = of_int (rne ((6867989431740006 / 2 ^ 50 * 1000) / 2 powi (12 - 52))) * 2 powi (12 - 52)"
    by (rule rnd53_eval) simp_all
  also have "(6867989431740006 / 2 ^ 50 * 1000) / 2 powi (12 - 52) = (429249339483750375 / 64 :: real)"
    by simp
  also have "rne (429249339483750375 / 64) = 6707020929433600"
    by (simp add: rne_def Let_def)
  finally show ?thesis by simp
qed

lemma mul_6100_1_1: "rnd53 (6100 * (4953959590107546 / 2 ^ 52)) = 7377723022376961 / 2 ^ 40"
proof -
  have "rnd53 (6100 * (4953959590107546 / 2 ^ 52)) = of_int (rne ((6100 * (4953959590107546 / 2 ^ 52)) / 2 powi (12 - 52))) * 2 powi (12 - 52)"
    by (rule rnd53_eval) simp_all
  also have "(6100 * (4953959590107546 / 2 ^ 52)) / 2 powi (12 - 52) = (3777394187457003825 / 512 :: real)"
    by simp
  also have "rne (3777394187457003825 / 512) = 7377723022376961"
    by (simp add: rne_def Let_def)
  finally show ?thesis by simp
qed

lemma add_6710_1000:
  "rnd53 (7377723022376961 / 2 ^ 40 + 1000) = 8477234650152961 / 2 ^ 40"
proof -
  have "(7377723022376961 / 2 ^ 40 + 1000 :: real) = of_int 8477234650152961 / 2 ^ 40"
    by simp
  moreover have "rnd53 (of_int 8477234650152961 / 2 ^ 40) = of_int 8477234650152961 / 2 ^ 40"
    by (rule rnd53_dyadic_gen) simp_all
  ultimately show ?thesis by simp
qed

lemma rnd53_sixteenth: "rnd53 (1 / 16) = 1 / 16"
  using rnd53_dyadic_gen [of 1 4] by simp

lemma far_from_1_1:
  assumes "1 / 16 \<le> \<bar>pf - rnd53 (11 / 10)\<bar>"
  shows "\<not> \<bar>fsub pf (rnd53 (11 / 10))\<bar> < rnd53 (1 / 100)"
proof -
  have "rnd53 (1 / 16) \<le> rnd53 \<bar>pf - rnd53 (11 / 10)\<bar>"
    using assms by (intro rnd53_mono) simp_all
  then have "1 / 16 \<le> \<bar>fsub pf (rnd53 (11 / 10))\<bar>"
    by (simp only: rnd53_sixteenth fsub_def rnd53_abs)
  moreover have "rnd53 (1 / 100) < 1 / 16" by (simp add: lit_0_01)
  ultimately show ?thesis by linarith
qed

lemma compact_not_adaptive:
  "pf \<le> 1 \<Longrightarrow> \<not> \<bar>fsub pf (rnd53 (11 / 10))\<bar> < rnd53 (1 / 100)"
  by (rule far_from_1_1) (simp add: lit_1_1)

lemma fmul_le:
  assumes "0 \<le> x * y" and "x * y \<le> real n" and "n < 8388608"
  shows "fmul x y \<le> real n"
  using rnd53_mono [OF assms(1,2)] rnd53_nat [OF assms(3)] by (simp add: fmul_def)

lemma fmul_nat: "m * n < 8388608 \<Longrightarrow> fmul (real m) (real n) = real (m * n)"
  using rnd53_nat [of "m * n"] by (simp add: fmul_def)

lemma fadd_nat: "m + n < 8388608 \<Longrightarrow> fadd (real m) (real n) = real (m + n)"
  using rnd53_nat [of "m + n"] by (simp add: fadd_def)

lemma same_factor: "\<bar>fsub (rnd53 (11 / 10)) (rnd53 (11 / 10))\<bar> < rnd53 (1 / 100)"
  unfolding fsub_def lit_0_01 by simp

lemma pause_example_adaptive: "dynamicPauseDuration 2 (rnd53 (11 / 10)) = 3200"
proof -
  have a: "fmul 2 1000 = 2000" using fmul_nat [of 2 1000] by simp
  have b: "fmul 2000 (rnd53 (11 / 10)) = 2200"
    by (simp only: fmul_def lit_1_1 mul_2000_1_1)
  have c: "fadd 2200 1000 = 3200" using fadd_nat [of 2200 1000] by simp
  show ?thesis
    unfolding dynamicPauseDuration_def a b c using same_factor by simp
qed

lemma pause_example_compact: "dynamicPauseDuration (1 / 2) (rnd53 (8 / 10)) = 1000"
proof -
  have le: "rnd53 (8 / 10) \<le> 1" unfolding lit_0_8 by simp
  have t: "\<not> \<bar>fsub (rnd53 (8 / 10)) (rnd53 (11 / 10))\<bar> < rnd53 (1 / 100)"
    using le by (rule compact_not_adaptive)
  have a: "fmul (1 / 2) 1000 = 500"
    using rnd53_nat [of 500] by (simp add: fmul_def)
  have "fmul 500 (rnd53 (8 / 10)) \<le> real 1000"
    unfolding lit_0_8 by (rule fmul_le) simp_all
  then have b: "max 1000 (fmul 500 (rnd53 (8 / 10))) = 1000" by simp
  show ?thesis
    unfolding dynamicPauseDuration_def a b using t le by simp
qed

lemma pause_example_relaxed: "dynamicPauseDuration 1 2 = 2000"
proof -
  have t: "\<not> \<bar>fsub 2 (rnd53 (11 / 10))\<bar> < rnd53 (1 / 100)"
    by (rule far_from_1_1) (simp add: lit_1_1)
  have a: "fmul 1 1000 = 1000" using fmul_nat [of 1 1000] by simp
  have b: "fmul 1000 2 = 2000" using fmul_nat [of 1000 2] by simp
  show ?thesis
    unfolding dynamicPauseDuration_def a b using t by simp
qed

lemma near_1_1:
  "\<bar>fsub (rnd53 (1105 / 1000)) (rnd53 (11 / 10))\<bar> < rnd53 (1 / 100)"
proof -
  have "fsub (rnd53 (1105 / 1000)) (rnd53 (11 / 10))
      = rnd53 (of_int 22517998136852 / 2 ^ 52)"
    unfolding fsub_def lit_1_105 lit_1_1 by simp
  also have "\<dots> = of_int 22517998136852 / 2 ^ 52"
    by (rule rnd53_dyadic_gen) simp_all
  finally have eq: "fsub (rnd53 (1105 / 1000)) (rnd53 (11 / 10))
      = of_int 22517998136852 / 2 ^ 52" .
  show ?thesis unfolding eq lit_0_01 by simp
qed

lemma pause_at_1_105: "dynamicPauseDuration 1 (rnd53 (1105 / 1000)) = 2100"
proof -
  have a: "fmul 1 1000 = 1000" using fmul_nat [of 1 1000] by simp
  have b: "fmul 1000 (rnd53 (11 / 10)) = 1100"
    by (simp only: fmul_def lit_1_1 mul_1000_1_1)
  have c: "fadd 1100 1000 = 2100" using fadd_nat [of 1100 1000] by simp
  show ?thesis
    unfolding dynamicPauseDuration_def a b c using near_1_1 by simp
qed

text \<open>
  Two more values: the factor 1.09 is farther than 0.01 from 1.1 in binary64, and the
  product for a sentence of 6.1 s is not a whole number of milliseconds.
\<close>

lemma pause_at_1_09: "dynamicPauseDuration 1 (rnd53 (109 / 100)) = 1500"
proof -
  have "fsub (rnd53 (109 / 100)) (rnd53 (11 / 10))
      = rnd53 (- (of_int 45035996273705 / 2 ^ 52))"
    unfolding fsub_def lit_1_09 lit_1_1 by simp
  also have "\<dots> = - rnd53 (of_int 45035996273705 / 2 ^ 52)"
    by (rule rnd53_minus)
  also have "rnd53 (of_int 45035996273705 / 2 ^ 52) = of_int 45035996273705 / 2 ^ 52"
    by (rule rnd53_dyadic_gen) simp_all
  finally have eq: "fsub (rnd53 (109 / 100)) (rnd53 (11 / 10))
      = - (of_int 45035996273705 / 2 ^ 52)" .
  have t: "\<not> \<bar>fsub (rnd53 (109 / 100)) (rnd53 (11 / 10))\<bar> < rnd53 (1 / 100)"
    unfolding eq lit_0_01 by simp
  have gt: "\<not> rnd53 (109 / 100) \<le> 1" unfolding lit_1_09 by simp
  have a: "fmul 1 1000 = 1000" using fmul_nat [of 1 1000] by simp
  have "fmul 1000 (rnd53 (109 / 100)) \<le> real 1500"
    unfolding lit_1_09 by (rule fmul_le) simp_all
  then have b: "max 1500 (fmul 1000 (rnd53 (109 / 100))) = 1500" by simp
  show ?thesis
    unfolding dynamicPauseDuration_def a b using t gt by simp
qed

lemma pause_at_6_1:
  "dynamicPauseDuration (rnd53 (61 / 10)) (rnd53 (11 / 10)) = 8477234650152961 / 2 ^ 40"
proof -
  have a: "fmul (rnd53 (61 / 10)) 1000 = 6100"
    by (simp only: fmul_def lit_6_1 mul_6_1_1000)
  have b: "fmul 6100 (rnd53 (11 / 10)) = 7377723022376961 / 2 ^ 40"
    by (simp only: fmul_def lit_1_1 mul_6100_1_1)
  have c: "fadd (7377723022376961 / 2 ^ 40) 1000 = 8477234650152961 / 2 ^ 40"
    by (simp only: fadd_def add_6710_1000)
  show ?thesis
    unfolding dynamicPauseDuration_def a b c using same_factor by simp
qed

text \<open>
  C8, as stated, fails: the first tier is taken for every pause factor whose distance
  from 1.1 is below 0.01, not only for 1.1. At the factor 1.105 and a sentence of 1 s
  the pause is 2100 ms, where the factor is not 1.1 and is above 1, and the third
  formula of the claim gives 1500 ms.
\<close>

theorem pause_tier_counterexample:
  "dynamicPauseDuration 1 (rnd53 (1105 / 1000)) = 2100 \<and>
   rnd53 (1105 / 1000) \<noteq> rnd53 (11 / 10) \<and> \<not> rnd53 (1105 / 1000) \<le> 1 \<and>
   max 1500 (fmul (fmul 1 1000) (rnd53 (1105 / 1000))) = 1500"
proof -
  have ne: "rnd53 (1105 / 1000) \<noteq> rnd53 (11 / 10)" unfolding lit_1_105 lit_1_1 by simp
  have gt: "\<not> rnd53 (1105 / 1000) \<le> 1" unfolding lit_1_105 by simp
  have a: "fmul 1 1000 = 1000" using fmul_nat [of 1 1000] by simp
  have "fmul 1000 (rnd53 (1105 / 1000)) \<le> real 1500"
    unfolding lit_1_105 by (rule fmul_le) simp_all
  then have "max 1500 (fmul (fmul 1 1000) (rnd53 (1105 / 1000))) = 1500"
    unfolding a by simp
  with pause_at_1_105 ne gt show ?thesis by blast
qed

text \<open>
  C8, amended. With every operation in binary64, the pause in milliseconds is
  \<open>d * 1000 * 1.1 + 1000\<close> when \<open>\<bar>factor - 1.1\<bar> < 0.01\<close>; \<open>max 1000 (d * 1000 * factor)\<close> when the
  factor is at most 1, where the first test never holds; and \<open>max 1500 (d * 1000 * factor)\<close>
  otherwise. The three examples of the claim hold: 3200 ms, 1000 ms and 2000 ms.
\<close>

theorem dynamicPauseDuration_tiers:
  "(\<bar>fsub pf (rnd53 (11 / 10))\<bar> < rnd53 (1 / 100) \<longrightarrow>
      dynamicPauseDuration d pf = fadd (fmul (fmul d 1000) (rnd53 (11 / 10))) 1000) \<and>
   (pf \<le> 1 \<longrightarrow> dynamicPauseDuration d pf = max 1000 (fmul (fmul d 1000) pf)) \<and>
   (1 < pf \<and> rnd53 (1 / 100) \<le> \<bar>fsub pf (rnd53 (11 / 10))\<bar> \<longrightarrow>
      dynamicPauseDuration d pf = max 1500 (fmul (fmul d 1000) pf)) \<and>
   dynamicPauseDuration 2 (rnd53 (11 / 10)) = 3200 \<and>
   dynamicPauseDuration (1 / 2) (rnd53 (8 / 10)) = 1000 \<and>
   dynamicPauseDuration 1 2 = 2000"
proof -
  have t1: "dynamicPauseDuration d pf = fadd (fmul (fmul d 1000) (rnd53 (11 / 10))) 1000"
    if "\<bar>fsub pf (rnd53 (11 / 10))\<bar> < rnd53 (1 / 100)"
    using that by (simp add: dynamicPauseDuration_def)
  have t2: "dynamicPauseDuration d pf = max 1000 (fmul (fmul d 1000) pf)" if "pf \<le> 1"
    using that compact_not_adaptive [OF that] by (simp add: dynamicPauseDuration_def)
  have t3: "dynamicPauseDuration d pf = max 1500 (fmul (fmul d 1000) pf)"
    if "1 < pf \<and> rnd53 (1 / 100) \<le> \<bar>fsub pf (rnd53 (11 / 10))\<bar>"
    using that by (simp add: dynamicPauseDuration_def)
  from t1 t2 t3 pause_example_adaptive pause_example_compact pause_example_relaxed
  show ?thesis by blast
qed

theorem dynamicPauseDuration_tiers_witness:
  "\<bar>fsub (rnd53 (1105 / 1000)) (rnd53 (11 / 10))\<bar> < rnd53 (1 / 100) \<and>
   dynamicPauseDuration 1 (rnd53 (1105 / 1000))
     = fadd (fmul (fmul 1 1000) (rnd53 (11 / 10))) 1000 \<and>
   (1 / 2 :: real) \<le> 1 \<and>
   dynamicPauseDuration 3 (1 / 2) = max 1000 (fmul (fmul 3 1000) (1 / 2)) \<and>
   (1 :: real) < 2 \<and> rnd53 (1 / 100) \<le> \<bar>fsub 2 (rnd53 (11 / 10))\<bar> \<and>
   dynamicPauseDuration 1 2 = max 1500 (fmul (fmul 1 1000) 2)"
proof -
  have h1: "\<bar>fsub (rnd53 (1105 / 1000)) (rnd53 (11 / 10))\<bar> < rnd53 (1 / 100)"
    by (rule near_1_1)
  have h2: "(1 / 2 :: real) \<le> 1" by simp
  have "\<not> \<bar>fsub 2 (rnd53 (11 / 10))\<bar> < rnd53 (1 / 100)"
    by (rule far_from_1_1) (simp add: lit_1_1)
  then have h3: "(1 :: real) < 2 \<and> rnd53 (1 / 100) \<le> \<bar>fsub 2 (rnd53 (11 / 10))\<bar>" by simp
  from dynamicPauseDuration_tiers [of "rnd53 (1105 / 1000)" 1] h1
  have 1: "dynamicPauseDuration 1 (rnd53 (1105 / 1000))
      = fadd (fmul (fmul 1 1000) (rnd53 (11 / 10))) 1000" by blast
  from dynamicPauseDuration_tiers [of "1 / 2" 3] h2
  have 2: "dynamicPauseDuration 3 (1 / 2) = max 1000 (fmul (fmul 3 1000) (1 / 2))" by blast
  from dynamicPauseDuration_tiers [of 2 1] h3
  have 3: "dynamicPauseDuration 1 2 = max 1500 (fmul (fmul 1 1000) 2)" by blast
  from h1 h2 h3 1 2 3 show ?thesis by blast
qed

section \<open>Parser output\<close>

text \<open>
  A timestamp that the parser has matched is the string of its fields, so the value
  \<open>parseTimestamp\<close> returns is within \<open>2\<^sup>-\<^sup>2\<^sup>9\<close> of the instant it denotes. Instants are
  whole milliseconds: of two matched timestamps, the one that denotes the later instant
  is parsed to the larger number.
\<close>

lemma map_filter_mem: "c \<in> set (List.map_filter f xs) \<Longrightarrow> \<exists>x \<in> set xs. f x = Some c"
  by (auto simp: List.map_filter_def)

lemma search_Some: "search m s = Some r \<Longrightarrow> \<exists>t. m t = Some r"
  by (induction s) (auto split: option.splits)

lemma match_timestamp_take:
  "match_timestamp sep s = Some (g, rest) \<Longrightarrow> match_timestamp sep (take 12 s) = Some (g, [])"
  by (cases "(sep, s)" rule: match_timestamp.cases) (auto split: if_splits)

lemma match_range_stamps:
  assumes "match_range sep s = Some ((t1, t2), r)"
  shows "\<exists>g1 g2. match_timestamp sep t1 = Some (g1, []) \<and> match_timestamp sep t2 = Some (g2, [])"
proof -
  from assms obtain g1 r1 s2 g2 where
    m1: "match_timestamp sep s = Some (g1, r1)" and m2: "match_timestamp sep s2 = Some (g2, r)"
    and t: "t1 = take 12 s" "t2 = take 12 s2"
    by (auto simp: match_range_def Let_def split: option.splits list.splits if_splits)
  from match_timestamp_take [OF m1] match_timestamp_take [OF m2] t show ?thesis by blast
qed

lemma instant_ts_string:
  assumes "h < 100" "m < 100" "s < 100" "ms < 1000"
  shows "instant (ts_string h m s sep ms) = real (h * 3600 + m * 60 + s) + real ms / 1000"
proof -
  have str: "ts_string h m s sep ms =
      digit_char (h div 10) # digit_char (h mod 10) # CHR '':'' #
      digit_char (m div 10) # digit_char (m mod 10) # CHR '':'' #
      digit_char (s div 10) # digit_char (s mod 10) # sep #
      [digit_char (ms div 100), digit_char (ms div 10 mod 10), digit_char (ms mod 10)]"
    using assms by (simp add: ts_string_def pad2 pad3)
  show ?thesis
    unfolding instant_def str using assms by (simp add: parseInt_2 parseInt_3)
qed

lemma stamp_value:
  assumes "match_timestamp sep t = Some (g, [])" and "sep = CHR '','' \<or> sep = CHR ''.''"
  shows "\<exists>k. instant t = real k / 1000 \<and>
           instant t - 2 / 2 ^ 30 \<le> parseTimestamp t \<and> parseTimestamp t \<le> instant t + 2 / 2 ^ 30"
proof -
  obtain hh mm ss mmm where g: "g = (hh, mm, ss, mmm)" by (cases g)
  note sh = match_timestamp_shape [OF assms(1) [unfolded g]]
  define h m s ms where "h = parseInt_digits hh" and "m = parseInt_digits mm"
    and "s = parseInt_digits ss" and "ms = parseInt_digits mmm"
  have b: "h < 100" "m < 100" "s < 100" "ms < 1000"
    using sh(2-5) by (simp_all add: h_def m_def s_def ms_def)
  have t: "t = ts_string h m s sep ms" using sh(1) by (simp add: h_def m_def s_def ms_def)
  have i: "instant t = real (h * 3600 + m * 60 + s) + real ms / 1000"
    unfolding t by (rule instant_ts_string [OF b])
  have p: "parseTimestamp t =
      fadd (fadd (fadd (fmul (real h) 3600) (fmul (real m) 60)) (real s)) (fdiv (real ms) 1000)"
    unfolding t by (rule parseTimestamp_ts_string [OF b assms(2)])
  note pv = parse_value [OF b, folded p]
  define k where "k = (h * 3600 + m * 60 + s) * 1000 + ms"
  have ik: "instant t = real k / 1000" unfolding i k_def by simp
  have lo: "instant t - 2 / 2 ^ 30 \<le> parseTimestamp t" unfolding i by (rule pv(2))
  have hi: "parseTimestamp t \<le> instant t + 2 / 2 ^ 30" unfolding i by (rule pv(3))
  from ik lo hi show ?thesis by blast
qed

lemma parseTimestamp_strict_mono:
  assumes "match_timestamp sep t1 = Some (g1, [])" and "match_timestamp sep t2 = Some (g2, [])"
    and "sep = CHR '','' \<or> sep = CHR ''.''" and "instant t1 < instant t2"
  shows "parseTimestamp t1 < parseTimestamp t2"
proof -
  from stamp_value [OF assms(1,3)] obtain k1 where
    k1: "instant t1 = real k1 / 1000" and u1: "parseTimestamp t1 \<le> instant t1 + 2 / 2 ^ 30"
    by blast
  from stamp_value [OF assms(2,3)] obtain k2 where
    k2: "instant t2 = real k2 / 1000" and l2: "instant t2 - 2 / 2 ^ 30 \<le> parseTimestamp t2"
    by blast
  from assms(4) have "k1 < k2" unfolding k1 k2 by simp
  then have "real k1 + 1 \<le> real k2" by linarith
  then have "instant t1 + 1 / 1000 \<le> instant t2" unfolding k1 k2 by (simp add: field_simps)
  moreover have "(4::real) / 2 ^ 30 < 1 / 1000" by simp
  ultimately show ?thesis using u1 l2 by linarith
qed

lemma range_forward:
  assumes "search (match_range sep) line = Some ((t1, t2), r)"
    and "sep = CHR '','' \<or> sep = CHR ''.''" and "instant t1 < instant t2"
  shows "num_gt (Fin (parseTimestamp t2)) (Fin (parseTimestamp t1))"
proof -
  from search_Some [OF assms(1)] obtain s where "match_range sep s = Some ((t1, t2), r)" ..
  from match_range_stamps [OF this] obtain g1 g2 where
    "match_timestamp sep t1 = Some (g1, [])" "match_timestamp sep t2 = Some (g2, [])" by blast
  from parseTimestamp_strict_mono [OF this assms(2,3)] show ?thesis
    by (simp add: num_gt_def)
qed

lemma join_lines_nonempty: "list_ex (\<lambda>line. line \<noteq> []) ls \<Longrightarrow> join_lines ls \<noteq> []"
  by (induction ls rule: join_lines.induct) auto

lemma srt_block_valid:
  assumes "srt_block i b = Some c" and "valid_srt_block b"
  shows "num_gt (cue_end c) (cue_start c) \<and> cue_text c \<noteq> []"
  using assms
  by (auto simp: srt_block_def valid_srt_block_def Let_def join_lines_nonempty
      split: if_splits option.splits intro: range_forward)

lemma vtt_block_valid:
  assumes "vtt_block i b = Some c" and "valid_vtt_block b"
  shows "num_gt (cue_end c) (cue_start c) \<and> cue_text c \<noteq> []"
  using assms
  by (auto simp: vtt_block_def valid_vtt_block_def Let_def
      split: if_splits option.splits intro: range_forward)

lemma enumerate_snd: "(i, b) \<in> set (enumerate n xs) \<Longrightarrow> b \<in> set xs"
  by (auto simp: in_set_enumerate_eq)

text \<open>The example inputs, parsed.\<close>

lemma parseTimestamp_whole:
  assumes "h < 100" "m < 100" "s < 100" "sep = CHR '','' \<or> sep = CHR ''.''"
  shows "parseTimestamp (ts_string h m s sep 0) = real (h * 3600 + m * 60 + s)"
  using parseTimestamp_ts_string [OF assms(1-3) _ assms(4), of 0]
    parse_value(4) [OF assms(1-3), of 0]
  by simp

lemma ts_4: "parseTimestamp ''00:00:04,000'' = 4"
proof -
  have "ts_string 0 0 4 CHR '','' 0 = ''00:00:04,000''"
    by (simp add: ts_string_def pad2 pad3 digit_char_def)
  with parseTimestamp_whole [of 0 0 4 "CHR '',''"] show ?thesis by simp
qed

lemma ts_1: "parseTimestamp ''00:00:01,000'' = 1"
proof -
  have "ts_string 0 0 1 CHR '','' 0 = ''00:00:01,000''"
    by (simp add: ts_string_def pad2 pad3 digit_char_def)
  with parseTimestamp_whole [of 0 0 1 "CHR '',''"] show ?thesis by simp
qed

lemma ex1_blocks: "split_blocks exReversed = [exReversed]"
  by code_simp

lemma ex1_lines:
  "map trim (split_on LF exReversed) = [''1'', ''00:00:04,000 --> 00:00:01,000'', ''Hello'']"
  by code_simp

lemma ex_range1:
  "search (match_range CHR '','') ''00:00:04,000 --> 00:00:01,000''
     = Some ((''00:00:04,000'', ''00:00:01,000''), [])"
  by code_simp

lemma ex_parseInt: "parseInt ''1'' = Fin 1"
proof -
  have "to_number 1 = Fin 1"
    using rnd53_nat [of 1] by (simp add: to_number_def)
  then show ?thesis
    by (simp add: parseInt_def Let_def is_space_def is_digit_def parseInt_digits_def
        digit_val_def)
qed

lemma ex1_format: "trim exReversed \<noteq> [] \<and> detectFormat exReversed = Srt"
  by code_simp

lemma ex1_parse:
  "parse exReversed None =
     [\<lparr>cue_id = SrtId (Fin 1), cue_index = 0, cue_start = Fin 4, cue_end = Fin 1, cue_text = ''Hello''\<rparr>]"
proof -
  have ne: "exReversed \<noteq> []" by code_simp
  have "srt_block 0 exReversed =
      Some \<lparr>cue_id = SrtId (Fin 1), cue_index = 0, cue_start = Fin 4, cue_end = Fin 1, cue_text = ''Hello''\<rparr>"
    by (simp del: search.simps add: srt_block_def ne ex1_lines ex_range1 ex_parseInt ts_4 ts_1 isNaN_def Let_def)
  then show ?thesis
    using ex1_format by (simp add: parse_def parseSRT_def ex1_blocks List.map_filter_def)
qed

lemma ex_range2:
  "search (match_range CHR '','') ''00:00:01,000 --> 00:00:04,000''
     = Some ((''00:00:01,000'', ''00:00:04,000''), [])"
  by code_simp

lemma ex2_parse:
  "parse exBlankText None =
     [\<lparr>cue_id = SrtId (Fin 1), cue_index = 0, cue_start = Fin 1, cue_end = Fin 4, cue_text = []\<rparr>]"
proof -
  have ne: "exBlankText \<noteq> []" by code_simp
  have blocks: "split_blocks exBlankText = [exBlankText]" by code_simp
  have lines: "map trim (split_on LF exBlankText) = [''1'', ''00:00:01,000 --> 00:00:04,000'', []]"
    by code_simp
  have fmt: "trim exBlankText \<noteq> [] \<and> detectFormat exBlankText = Srt" by code_simp
  have "srt_block 0 exBlankText =
      Some \<lparr>cue_id = SrtId (Fin 1), cue_index = 0, cue_start = Fin 1, cue_end = Fin 4, cue_text = []\<rparr>"
    by (simp del: search.simps add: srt_block_def ne lines ex_range2 ex_parseInt ts_4 ts_1 isNaN_def Let_def)
  then show ?thesis
    using fmt by (simp add: parse_def parseSRT_def blocks List.map_filter_def)
qed

lemma ex3_parse:
  "parse exHello None =
     [\<lparr>cue_id = SrtId (Fin 1), cue_index = 0, cue_start = Fin 1, cue_end = Fin 4,
        cue_text = ''Hello world''\<rparr>]"
proof -
  have ne: "exHello \<noteq> []" by code_simp
  have blocks: "split_blocks exHello = [exHello]" by code_simp
  have lines: "map trim (split_on LF exHello) = [''1'', ''00:00:01,000 --> 00:00:04,000'', ''Hello world'']"
    by code_simp
  have fmt: "trim exHello \<noteq> [] \<and> detectFormat exHello = Srt" by code_simp
  have "srt_block 0 exHello =
      Some \<lparr>cue_id = SrtId (Fin 1), cue_index = 0, cue_start = Fin 1, cue_end = Fin 4,
        cue_text = ''Hello world''\<rparr>"
    by (simp del: search.simps add: srt_block_def ne lines ex_range2 ex_parseInt ts_4 ts_1 isNaN_def Let_def)
  then show ?thesis
    using fmt by (simp add: parse_def parseSRT_def blocks List.map_filter_def)
qed

lemma instants:
  "instant ''00:00:01,000'' = 1" "instant ''00:00:04,000'' = 4"
  "instant ''00:00:01.000'' = 1" "instant ''00:00:04.000'' = 4"
  by (simp_all add: instant_def parseInt_digits_def digit_val_def)

lemma exHello_valid: "valid_input exHello None"
proof -
  have blocks: "split_blocks exHello = [exHello]" by code_simp
  have lines: "map trim (split_on LF exHello) = [''1'', ''00:00:01,000 --> 00:00:04,000'', ''Hello world'']"
    by code_simp
  have fmt: "detectFormat exHello = Srt" by code_simp
  show ?thesis
    by (simp del: search.simps
        add: valid_input_def fmt blocks valid_srt_block_def lines ex_range2 instants)
qed

lemma exVtt_blocks:
  "split_blocks (replace_re match_note []
      (case match_header exVtt of Some rest \<Rightarrow> rest | None \<Rightarrow> exVtt))
     = [exVttBlock]"
  by code_simp

lemma exVtt_lines:
  "map trim (split_on LF exVttBlock)
     = [[], ''00:00:01.000 --> 00:00:04.000'', ''<i>Hello</i> world'']"
  by code_simp

lemma exVtt_time_line:
  "find_time_line [[], ''00:00:01.000 --> 00:00:04.000'', ''<i>Hello</i> world''] 0 = Some 1"
  by code_simp

lemma exVtt_range:
  "search (match_range CHR ''.'') ''00:00:01.000 --> 00:00:04.000''
     = Some ((''00:00:01.000'', ''00:00:04.000''), [])"
  by code_simp

lemma exVtt_text: "cleanVTTText ''<i>Hello</i> world'' = ''Hello world''"
  by code_simp

lemma exVtt_format: "trim exVtt \<noteq> [] \<and> detectFormat exVtt = Vtt"
  by code_simp

lemma exVtt_valid: "valid_input exVtt None"
proof -
  have "valid_vtt_block exVttBlock"
    by (simp del: search.simps find_time_line.simps
        add: valid_vtt_block_def exVtt_lines exVtt_time_line exVtt_range exVtt_text instants)
  then show ?thesis
    by (simp add: valid_input_def exVtt_format exVtt_blocks)
qed

lemma exVtt_parse: "parse exVtt None \<noteq> []"
proof -
  have ne: "exVttBlock \<noteq> []" by (simp add: exVttBlock_def)
  have "vtt_block 0 exVttBlock \<noteq> None"
    by (simp del: search.simps find_time_line.simps
        add: vtt_block_def ne exVtt_lines exVtt_time_line exVtt_range)
  then show ?thesis
    using exVtt_format
    by (auto simp: parse_def parseVTT_def exVtt_blocks List.map_filter_def)
qed

text \<open>
  C4, as stated, fails. A block whose end timestamp is before its start timestamp is
  parsed into a cue that starts at 4 s and ends at 1 s; a block whose text line is a
  single space is parsed into a cue with empty text.
\<close>

theorem parse_invariant_counterexample:
  "parse exReversed None =
     [\<lparr>cue_id = SrtId (Fin 1), cue_index = 0, cue_start = Fin 4, cue_end = Fin 1, cue_text = ''Hello''\<rparr>] \<and>
   \<not> num_gt (Fin 1) (Fin 4) \<and>
   parse exBlankText None =
     [\<lparr>cue_id = SrtId (Fin 1), cue_index = 0, cue_start = Fin 1, cue_end = Fin 4, cue_text = []\<rparr>]"
  using ex1_parse ex2_parse by (simp add: num_gt_def)

text \<open>
  C4, amended. For every input text that is valid for the format it is parsed in (every
  block with a time range has an end timestamp later than its start timestamp, and
  text after the time line that is not blank), every cue in the output of \<open>parse\<close> has
  its end after its start and a text that is not empty.
\<close>

theorem parse_output_valid:
  assumes "valid_input text format"
  shows "\<forall>c \<in> set (parse text format). num_gt (cue_end c) (cue_start c) \<and> cue_text c \<noteq> []"
proof
  fix c
  assume "c \<in> set (parse text format)"
  then consider
    (srt) "c \<in> set (parseSRT text)" "(case format of Some f \<Rightarrow> f | None \<Rightarrow> detectFormat text) = Srt"
    | (vtt) "c \<in> set (parseVTT text)" "(case format of Some f \<Rightarrow> f | None \<Rightarrow> detectFormat text) = Vtt"
    by (auto simp: parse_def split: if_splits SubtitleFormat.splits)
  then show "num_gt (cue_end c) (cue_start c) \<and> cue_text c \<noteq> []"
  proof cases
    case srt
    from srt(1) obtain p where p: "p \<in> set (enumerate 0 (split_blocks text))"
      and c: "(\<lambda>(i, block). srt_block i block) p = Some c"
      unfolding parseSRT_def by (blast dest: map_filter_mem)
    obtain i b where ib: "p = (i, b)" by (cases p)
    from p ib have "b \<in> set (split_blocks text)" by (auto dest: enumerate_snd)
    with assms srt(2) have "valid_srt_block b"
      by (simp add: valid_input_def list_all_iff)
    with c ib show ?thesis by (auto dest: srt_block_valid)
  next
    case vtt
    define body where "body = replace_re match_note ''''
      (case match_header text of Some rest \<Rightarrow> rest | None \<Rightarrow> text)"
    from vtt(1) obtain p where p: "p \<in> set (enumerate 0 (split_blocks body))"
      and c: "(\<lambda>(i, block). vtt_block i block) p = Some c"
      unfolding parseVTT_def Let_def body_def by (blast dest: map_filter_mem)
    obtain i b where ib: "p = (i, b)" by (cases p)
    from p ib have "b \<in> set (split_blocks body)" by (auto dest: enumerate_snd)
    with assms vtt(2) have "valid_vtt_block b"
      by (simp add: valid_input_def list_all_iff body_def)
    with c ib show ?thesis by (auto dest: vtt_block_valid)
  qed
qed

theorem parse_output_valid_witness:
  "valid_input exHello None \<and> parse exHello None \<noteq> [] \<and>
   num_gt (cue_end (hd (parse exHello None))) (cue_start (hd (parse exHello None))) \<and>
   cue_text (hd (parse exHello None)) \<noteq> [] \<and>
   valid_input exVtt None \<and> parse exVtt None \<noteq> [] \<and>
   num_gt (cue_end (hd (parse exVtt None))) (cue_start (hd (parse exVtt None))) \<and>
   cue_text (hd (parse exVtt None)) \<noteq> []"
proof -
  have ne: "parse exHello None \<noteq> []" by (simp add: ex3_parse)
  then have "hd (parse exHello None) \<in> set (parse exHello None)" by simp
  with parse_output_valid [OF exHello_valid] have
    a: "num_gt (cue_end (hd (parse exHello None))) (cue_start (hd (parse exHello None))) \<and>
      cue_text (hd (parse exHello None)) \<noteq> []" by blast
  have "hd (parse exVtt None) \<in> set (parse exVtt None)" using exVtt_parse by simp
  with parse_output_valid [OF exVtt_valid] have
    b: "num_gt (cue_end (hd (parse exVtt None))) (cue_start (hd (parse exVtt None))) \<and>
      cue_text (hd (parse exVtt None)) \<noteq> []" by blast
  from exHello_valid ne a exVtt_valid exVtt_parse b show ?thesis by blast
qed

end
